theory Spec2Isabelle
  imports Main "HOL-Library.AList" "HOL-Library.Char_ord" "HOL-Library.List_Lexorder"
begin

section \<open>PERF core: command line, cutoff dispatch and the scan entry point\<close>

text \<open>
  The development embeds \<^verbatim>\<open>src/PERF/core.py\<close>: \<^verbatim>\<open>getArgs\<close>, \<^verbatim>\<open>ssr_native\<close> and
  \<^verbatim>\<open>main\<close>. Exceptions and process exits are values of the type \<open>error\<close>; everything the
  code does besides returning (calls into the other modules, lines written to stderr) is
  recorded, in order, in a list of events. The modules \<^verbatim>\<open>rep_utils\<close>, \<^verbatim>\<open>fastq_utils\<close>,
  \<^verbatim>\<open>analyse\<close> and \<^verbatim>\<open>annotation\<close> are not part of the sources: the values
  \<^verbatim>\<open>generate_repeats\<close> and \<^verbatim>\<open>build_rep_set\<close> return are parameters of the model, and a
  call into one of these modules is an event that returns.
\<close>

subsection \<open>Python strings and integers\<close>

text \<open>
  Texts are ASCII. \<open>is_space\<close> is the whitespace of \<^verbatim>\<open>str.strip\<close> and \<^verbatim>\<open>str.split\<close>:
  tab, line feed, vertical tab, form feed, carriage return, the four separators
  \<^verbatim>\<open>\x1c\<close> to \<^verbatim>\<open>\x1f\<close>, and the space. \<open>is_c_space\<close> is the whitespace \<^verbatim>\<open>int\<close> skips at both
  ends of an ASCII string: the same without the four separators.
\<close>

definition is_space :: "char \<Rightarrow> bool" where
  "is_space c = (let n = (of_char c :: nat) in (9 \<le> n \<and> n \<le> 13) \<or> (28 \<le> n \<and> n \<le> 32))"

definition is_c_space :: "char \<Rightarrow> bool" where
  "is_c_space c = (let n = (of_char c :: nat) in (9 \<le> n \<and> n \<le> 13) \<or> n = 32)"

definition is_digit :: "char \<Rightarrow> bool" where
  "is_digit c = (let n = (of_char c :: nat) in 48 \<le> n \<and> n \<le> 57)"

definition digit_value :: "char \<Rightarrow> nat" where
  "digit_value c = of_char c - 48"

text \<open>\<^verbatim>\<open>s.strip()\<close>: whitespace removed at both ends.\<close>

definition py_strip :: "string \<Rightarrow> string" where
  "py_strip s = rev (dropWhile is_space (rev (dropWhile is_space s)))"

text \<open>
  \<^verbatim>\<open>s.split()\<close>: the maximal runs of non-whitespace characters, in order. \<open>cur\<close> is the
  run being read, reversed.
\<close>

fun split_acc :: "string \<Rightarrow> string \<Rightarrow> string list" where
  "split_acc cur [] = (if cur = [] then [] else [rev cur])"
| "split_acc cur (c # cs) =
     (if is_space c then (if cur = [] then split_acc [] cs else rev cur # split_acc [] cs)
      else split_acc (c # cur) cs)"

definition py_split :: "string \<Rightarrow> string list" where
  "py_split s = split_acc [] s"

text \<open>
  \<^verbatim>\<open>int(s)\<close> for a string: surrounding whitespace (\<open>is_c_space\<close>) is ignored, one sign is allowed, then
  decimal digits, where single underscores may stand between two digits. \<open>None\<close> is
  \<^verbatim>\<open>ValueError\<close>. (The interpreter's limit on the number of digits is not modelled.)
\<close>

fun py_digits :: "nat \<Rightarrow> string \<Rightarrow> nat option" where
  "py_digits acc [] = Some acc"
| "py_digits acc (c # cs) =
     (if is_digit c then py_digits (10 * acc + digit_value c) cs
      else if c = CHR ''_'' then
        (case cs of [] \<Rightarrow> None | d # _ \<Rightarrow> if is_digit d then py_digits acc cs else None)
      else None)"

definition py_nat :: "string \<Rightarrow> nat option" where
  "py_nat s = (case s of [] \<Rightarrow> None | c # _ \<Rightarrow> if is_digit c then py_digits 0 s else None)"

definition py_int :: "string \<Rightarrow> int option" where
  "py_int s =
     (let t = rev (dropWhile is_c_space (rev (dropWhile is_c_space s))) in
      case t of
        [] \<Rightarrow> None
      | c # r \<Rightarrow>
          if c = CHR ''-'' then map_option (\<lambda>n. - int n) (py_nat r)
          else if c = CHR ''+'' then map_option int (py_nat r)
          else map_option int (py_nat t))"

subsection \<open>Errors, the argument namespace and events\<close>

datatype error =
    Parser_error string       \<comment> \<open>\<^verbatim>\<open>parser.error(msg)\<close>: usage and message, exit status 2\<close>
  | System_exit string        \<comment> \<open>\<^verbatim>\<open>sys.exit(msg)\<close>: message on stderr, exit status 1\<close>
  | Name_error string         \<comment> \<open>uncaught \<^verbatim>\<open>NameError\<close> for the name\<close>
  | Unbound_local_error string
  | Index_error               \<comment> \<open>uncaught \<^verbatim>\<open>IndexError\<close>: list index out of range\<close>
  | Type_error
  | Os_error                  \<comment> \<open>uncaught \<^verbatim>\<open>OSError\<close> other than \<^verbatim>\<open>FileNotFoundError\<close>\<close>

text \<open>
  \<^verbatim>\<open>args.repeats\<close> holds the file \<^verbatim>\<open>argparse\<close> opened for \<^verbatim>\<open>-rep\<close> (here its name), or
  later the value \<^verbatim>\<open>generate_repeats\<close> returned.
\<close>

datatype 'g repeats = Repeats_file string | Generated 'g

text \<open>
  \<^verbatim>\<open>args.output\<close> (the field \<open>output_file\<close>, as \<^verbatim>\<open>args.input\<close> is the field
  \<open>input_file\<close>): the stream \<^verbatim>\<open>argparse\<close> delivered, by its \<^verbatim>\<open>name\<close> (the default is
  \<^verbatim>\<open>sys.stdout\<close>, named \<^verbatim>\<open><stdout>\<close>), or the file
  \<^verbatim>\<open>open(splitext(args.input)[0] + '_perf.tsv', 'w')\<close>, kept by the input name it is
  derived from.
\<close>

datatype out_file = Stream string | Perf_tsv string

text \<open>\<^verbatim>\<open>args.min_units\<close> is \<^verbatim>\<open>None\<close>, the string given to \<^verbatim>\<open>-u\<close>, or later an integer.\<close>

datatype units_arg = Units_none | Units_str string | Units_int int

text \<open>
  The command line as \<^verbatim>\<open>argparse\<close> has converted it (\<^verbatim>\<open>type=int\<close> applied, the files of
  \<^verbatim>\<open>-rep\<close> and \<^verbatim>\<open>-o\<close> opened): each option the code reads, \<open>None\<close> when it is absent.
  The options that \<^verbatim>\<open>core.py\<close> only hands on to the other modules (\<^verbatim>\<open>--info\<close>,
  \<^verbatim>\<open>-s\<close>, \<^verbatim>\<open>-S\<close>, the annotation options, the sequence-id filters, \<^verbatim>\<open>-t\<close>) are left out.
\<close>

record cmdline =
  opt_input :: string
  opt_format :: "string option"
  opt_output :: "string option"
  opt_repeats :: "string option"
  opt_analyse :: bool
  opt_annotate :: "string option"
  opt_min_motif_size :: "int option"
  opt_max_motif_size :: "int option"
  opt_include_atomic :: bool
  opt_min_length :: "int option"
  opt_min_units :: "string option"

record 'g args =
  input_file :: string
  format :: string
  output_file :: out_file
  repeats :: "'g repeats option"
  analyse :: bool
  annotate :: "string option"
  min_motif_size :: int
  max_motif_size :: int
  include_atomic :: bool
  min_length :: "int option"
  min_units :: units_arg

text \<open>The unit-cutoff dictionary, in insertion order; \<open>AList.update\<close> is item assignment.\<close>

type_synonym unit_table = "(int \<times> int) list"

text \<open>The keyword argument given to \<^verbatim>\<open>build_rep_set\<close> besides the repeats.\<close>

datatype cutoff = Length_cutoff "int option" | Unit_cutoff unit_table

datatype message =
    Using_length_cutoff int     \<comment> \<open>\<^verbatim>\<open>'Using length cutoff of %d' % (length_cutoff)\<close>\<close>
  | Using_unit_cutoff unit_table  \<comment> \<open>\<^verbatim>\<open>'Using unit cutoff of ', unit_cutoff\<close>\<close>
  | Warning_unit_of_1 int       \<comment> \<open>\<^verbatim>\<open>'Warning: Repeat unit of 1 used for size %d.' % (L[0])\<close>\<close>

datatype ('g, 'i) event =
    Call_generate_repeats int int bool
  | Call_ssr_native "'g args" "int option" "unit_table option"
  | Call_build_rep_set "'g repeats option" cutoff
  | Call_fasta_ssrs "'g args" 'i
  | Call_fastq_ssrs "'g args" 'i
  | Call_annotate "'g args"
  | Call_analyse "'g args"
  | Stderr message

text \<open>A computation: the events so far, and an error or a value.\<close>

type_synonym ('g, 'i, 'a) run = "('g, 'i) event list \<times> (error + 'a)"

definition then_do :: "('g, 'i, 'a) run \<Rightarrow> ('a \<Rightarrow> ('g, 'i, 'b) run) \<Rightarrow> ('g, 'i, 'b) run" where
  "then_do m f =
     (case m of
        (ev, Inl e) \<Rightarrow> (ev, Inl e)
      | (ev, Inr x) \<Rightarrow> (case f x of (ev', r) \<Rightarrow> (ev @ ev', r)))"

subsection \<open>\<^verbatim>\<open>getArgs\<close>\<close>

text \<open>
  \<^verbatim>\<open>parser.parse_args()\<close>: the defaults of the declarations (format \<^verbatim>\<open>fasta\<close>, output
  \<^verbatim>\<open>sys.stdout\<close>, \<^verbatim>\<open>-m\<close> 1, \<^verbatim>\<open>-M\<close> 6, no default for \<^verbatim>\<open>-rep\<close>, \<^verbatim>\<open>-g\<close>, \<^verbatim>\<open>-l\<close>, \<^verbatim>\<open>-u\<close>),
  and the mutually exclusive group of \<^verbatim>\<open>-l\<close> and \<^verbatim>\<open>-u\<close>.
\<close>

definition parse_args :: "cmdline \<Rightarrow> error + 'g args" where
  "parse_args cl =
     (if opt_min_length cl \<noteq> None \<and> opt_min_units cl \<noteq> None
      then Inl (Parser_error ''argument -u/--min-units: not allowed with argument -l/--min-length'')
      else Inr \<lparr>
        input_file = opt_input cl,
        format = (case opt_format cl of None \<Rightarrow> ''fasta'' | Some f \<Rightarrow> f),
        output_file = (case opt_output cl of None \<Rightarrow> Stream ''<stdout>'' | Some n \<Rightarrow> Stream n),
        repeats = map_option Repeats_file (opt_repeats cl),
        analyse = opt_analyse cl,
        annotate = opt_annotate cl,
        min_motif_size = (case opt_min_motif_size cl of None \<Rightarrow> 1 | Some m \<Rightarrow> m),
        max_motif_size = (case opt_max_motif_size cl of None \<Rightarrow> 6 | Some m \<Rightarrow> m),
        include_atomic = opt_include_atomic cl,
        min_length = opt_min_length cl,
        min_units = (case opt_min_units cl of None \<Rightarrow> Units_none | Some u \<Rightarrow> Units_str u)
      \<rparr>)"

text \<open>Python's \<^verbatim>\<open>a or b\<close> on integers, and the truth value of an integer.\<close>

definition py_or :: "int \<Rightarrow> int \<Rightarrow> int" where
  "py_or a b = (if a \<noteq> 0 then a else b)"

definition truthy_int :: "int \<Rightarrow> bool" where
  "truthy_int n = (n \<noteq> 0)"

text \<open>
  The checks after parsing. An open file object is true, so \<^verbatim>\<open>args.repeats\<close> is true
  exactly when \<^verbatim>\<open>-rep\<close> was given.
\<close>

definition getArgs :: "cmdline \<Rightarrow> error + 'g args" where
  "getArgs cl =
     (case parse_args cl of
        Inl e \<Rightarrow> Inl e
      | Inr a \<Rightarrow>
          if repeats a \<noteq> None \<and> truthy_int (py_or (min_motif_size a) (max_motif_size a))
          then Inl (Parser_error ''-rep is not allowed with -m/-M'')
          else if output_file a = Stream ''<stdout>''
          then Inr (a\<lparr>output_file := Perf_tsv (input_file a)\<rparr>)
          else Inr a)"

subsection \<open>\<^verbatim>\<open>ssr_native\<close>\<close>

text \<open>
  The string-valued names bound at module level of \<^verbatim>\<open>core.py\<close>. The module binds the
  imported modules and functions, \<^verbatim>\<open>inf\<close>, \<^verbatim>\<open>getArgs\<close>, \<^verbatim>\<open>ssr_native\<close> and \<^verbatim>\<open>main\<close>;
  \<^verbatim>\<open>input_format\<close> is bound nowhere, neither in the module nor in \<^verbatim>\<open>ssr_native\<close>.
\<close>

definition module_globals :: "(string \<times> string) list" where
  "module_globals = []"

text \<open>
  The truth value of the parameters \<^verbatim>\<open>length_cutoff\<close> and \<^verbatim>\<open>unit_cutoff\<close>; \<open>None\<close> is
  their default \<^verbatim>\<open>False\<close>, and an empty dictionary is false.
\<close>

definition truthy_length :: "int option \<Rightarrow> bool" where
  "truthy_length l = (case l of None \<Rightarrow> False | Some n \<Rightarrow> truthy_int n)"

definition truthy_table :: "unit_table option \<Rightarrow> bool" where
  "truthy_table u = (case u of None \<Rightarrow> False | Some t \<Rightarrow> t \<noteq> [])"

text \<open>
  The first statement of \<^verbatim>\<open>ssr_native\<close>: \<^verbatim>\<open>repeats_info\<close> is bound in the two cutoff
  branches only (\<open>None\<close>: unbound). In the length branch the parameter is overwritten by
  \<^verbatim>\<open>args.min_length\<close>, and \<^verbatim>\<open>%d\<close> of \<^verbatim>\<open>None\<close> is a \<^verbatim>\<open>TypeError\<close>.
\<close>

definition bind_repeats_info ::
  "('g repeats option \<Rightarrow> cutoff \<Rightarrow> 'i) \<Rightarrow> 'g args \<Rightarrow> int option \<Rightarrow> unit_table option
     \<Rightarrow> ('g, 'i, 'i option) run" where
  "bind_repeats_info build_rep_set a length_cutoff unit_cutoff =
     (let repeat_file = repeats a in
      if truthy_length length_cutoff then
        (let lc = min_length a;
             repeats_info = build_rep_set repeat_file (Length_cutoff lc)
         in case lc of
              None \<Rightarrow> ([Call_build_rep_set repeat_file (Length_cutoff lc)], Inl Type_error)
            | Some l \<Rightarrow>
                ([Call_build_rep_set repeat_file (Length_cutoff lc), Stderr (Using_length_cutoff l)],
                 Inr (Some repeats_info)))
      else if truthy_table unit_cutoff then
        (case unit_cutoff of
           None \<Rightarrow> ([], Inr None)
         | Some uc \<Rightarrow>
             ([Call_build_rep_set repeat_file (Unit_cutoff uc), Stderr (Using_unit_cutoff uc)],
              Inr (Some (build_rep_set repeat_file (Unit_cutoff uc)))))
      else ([], Inr None))"

definition ssr_native ::
  "('g repeats option \<Rightarrow> cutoff \<Rightarrow> 'i) \<Rightarrow> 'g args \<Rightarrow> int option \<Rightarrow> unit_table option
     \<Rightarrow> ('g, 'i, unit) run" where
  "ssr_native build_rep_set a length_cutoff unit_cutoff =
     then_do (bind_repeats_info build_rep_set a length_cutoff unit_cutoff) (\<lambda>repeats_info.
       if format a = ''fasta'' then
         (case repeats_info of
            None \<Rightarrow> ([], Inl (Unbound_local_error ''repeats_info''))
          | Some info \<Rightarrow> ([Call_fasta_ssrs a info], Inr ()))
       else
         (case map_of module_globals ''input_format'' of
            None \<Rightarrow> ([], Inl (Name_error ''input_format''))
          | Some input_format \<Rightarrow>
              if input_format = ''fastq'' then
                (case repeats_info of
                   None \<Rightarrow> ([], Inl (Unbound_local_error ''repeats_info''))
                 | Some info \<Rightarrow> ([Call_fastq_ssrs a info], Inr ()))
              else ([], Inr ())))"

subsection \<open>\<^verbatim>\<open>main\<close>\<close>

text \<open>
  The call \<^verbatim>\<open>ssr_native(args, ...)\<close> as \<^verbatim>\<open>main\<close> makes it: the invocation is an event,
  followed by what \<^verbatim>\<open>ssr_native\<close> does.
\<close>

definition call_ssr_native ::
  "('g repeats option \<Rightarrow> cutoff \<Rightarrow> 'i) \<Rightarrow> 'g args \<Rightarrow> int option \<Rightarrow> unit_table option
     \<Rightarrow> ('g, 'i, unit) run" where
  "call_ssr_native build_rep_set a length_cutoff unit_cutoff =
     then_do ([Call_ssr_native a length_cutoff unit_cutoff], Inr ())
       (\<lambda>_. ssr_native build_rep_set a length_cutoff unit_cutoff)"

definition invalid_units_msg :: string where
  "invalid_units_msg =
     ''Invalid file format given for minimum units. Refer to help for more details''"

definition units_not_found_msg :: string where
  "units_not_found_msg = ''Units file specified is not found. Please provide a valid file''"

text \<open>
  One line of the units file: \<^verbatim>\<open>L = line.strip().split()\<close>, then \<^verbatim>\<open>L[0]\<close> and \<^verbatim>\<open>L[1]\<close>
  are read in this order, each before its \<^verbatim>\<open>int\<close>. A missing field is an
  \<^verbatim>\<open>IndexError\<close>, which no handler catches; a \<^verbatim>\<open>ValueError\<close> is caught and becomes
  \<^verbatim>\<open>sys.exit\<close>, which the handler for \<^verbatim>\<open>FileNotFoundError\<close> lets through.
\<close>

definition fields :: "string \<Rightarrow> string list" where
  "fields line = py_split (py_strip line)"

definition units_line :: "string \<Rightarrow> error + int \<times> int" where
  "units_line line =
     (case fields line of
        [] \<Rightarrow> Inl Index_error
      | f0 # fs \<Rightarrow>
          (case py_int f0 of
             None \<Rightarrow> Inl (System_exit invalid_units_msg)
           | Some l0 \<Rightarrow>
               (case fs of
                  [] \<Rightarrow> Inl Index_error
                | f1 # _ \<Rightarrow>
                    (case py_int f1 of
                       None \<Rightarrow> Inl (System_exit invalid_units_msg)
                     | Some l1 \<Rightarrow> Inr (l0, l1)))))"

text \<open>
  The loop over the lines, from the dictionary built so far: the warning for a unit
  count of 1, then the item assignment \<^verbatim>\<open>unit_cutoff[L[0]] = L[1]\<close>.
\<close>

fun read_units :: "unit_table \<Rightarrow> string list \<Rightarrow> ('g, 'i, unit_table) run" where
  "read_units unit_cutoff [] = ([], Inr unit_cutoff)"
| "read_units unit_cutoff (line # rest) =
     (case units_line line of
        Inl e \<Rightarrow> ([], Inl e)
      | Inr (l0, l1) \<Rightarrow>
          then_do (if l1 = 1 then [Stderr (Warning_unit_of_1 l0)] else [], Inr ())
            (\<lambda>_. read_units (AList.update l0 l1 unit_cutoff) rest))"

text \<open>The truth value of \<^verbatim>\<open>args.min_length\<close> and of \<^verbatim>\<open>args.min_units\<close>.\<close>

definition truthy_units :: "units_arg \<Rightarrow> bool" where
  "truthy_units u =
     (case u of Units_none \<Rightarrow> False | Units_str s \<Rightarrow> s \<noteq> [] | Units_int n \<Rightarrow> truthy_int n)"

text \<open>
  What \<^verbatim>\<open>open(path, 'r')\<close> does: it returns the file, here its lines, or raises
  \<^verbatim>\<open>FileNotFoundError\<close>, or raises another \<^verbatim>\<open>OSError\<close> (\<^verbatim>\<open>NotADirectoryError\<close> for a path
  through a plain file, \<^verbatim>\<open>PermissionError\<close>, \<^verbatim>\<open>IsADirectoryError\<close>, a name that is too
  long), which the handler for \<^verbatim>\<open>FileNotFoundError\<close> does not catch.
\<close>

datatype opened = Opened "string list" | File_not_found | Other_os_error

text \<open>
  The branch for a minimum number of units. \<open>files\<close> is the file system: what opening a
  path does. When \<^verbatim>\<open>int(args.min_units)\<close>
  succeeds the number is stored in the namespace and under the key 0 of the dictionary;
  when it raises \<^verbatim>\<open>ValueError\<close> the string is the path of the units file.
\<close>

definition scalar_units ::
  "('g repeats option \<Rightarrow> cutoff \<Rightarrow> 'i) \<Rightarrow> 'g args \<Rightarrow> int \<Rightarrow> ('g, 'i, 'g args) run" where
  "scalar_units build_rep_set a n =
     (let a' = a\<lparr>min_units := Units_int n\<rparr> in
      then_do (call_ssr_native build_rep_set a' None (Some [(0, n)])) (\<lambda>_. ([], Inr a')))"

definition file_units ::
  "('g repeats option \<Rightarrow> cutoff \<Rightarrow> 'i) \<Rightarrow> (string \<Rightarrow> opened) \<Rightarrow> 'g args
     \<Rightarrow> string \<Rightarrow> ('g, 'i, 'g args) run" where
  "file_units build_rep_set files a path =
     (case files path of
        File_not_found \<Rightarrow> ([], Inl (System_exit units_not_found_msg))
      | Other_os_error \<Rightarrow> ([], Inl Os_error)
      | Opened input_units \<Rightarrow>
          then_do (read_units [] input_units) (\<lambda>unit_cutoff.
            then_do (call_ssr_native build_rep_set a None (Some unit_cutoff))
              (\<lambda>_. ([], Inr a))))"

definition units_branch ::
  "('g repeats option \<Rightarrow> cutoff \<Rightarrow> 'i) \<Rightarrow> (string \<Rightarrow> opened) \<Rightarrow> 'g args
     \<Rightarrow> ('g, 'i, 'g args) run" where
  "units_branch build_rep_set files a =
     (case min_units a of
        Units_none \<Rightarrow> ([], Inl Type_error)
      | Units_int n \<Rightarrow> scalar_units build_rep_set a n
      | Units_str s \<Rightarrow>
          (case py_int s of
             Some n \<Rightarrow> scalar_units build_rep_set a n
           | None \<Rightarrow> file_units build_rep_set files a s))"

text \<open>The three-way dispatch on the cutoff options; a namespace that fits no branch passes.\<close>

definition dispatch ::
  "('g repeats option \<Rightarrow> cutoff \<Rightarrow> 'i) \<Rightarrow> (string \<Rightarrow> opened) \<Rightarrow> 'g args
     \<Rightarrow> ('g, 'i, 'g args) run" where
  "dispatch build_rep_set files a =
     (if truthy_length (min_length a) then
        then_do (call_ssr_native build_rep_set a (min_length a) None) (\<lambda>_. ([], Inr a))
      else if truthy_units (min_units a) then units_branch build_rep_set files a
      else if min_length a = None \<and> min_units a = Units_none then
        (let a' = a\<lparr>min_length := Some 12\<rparr> in
         then_do (call_ssr_native build_rep_set a' (min_length a') None) (\<lambda>_. ([], Inr a')))
      else ([], Inr a))"

text \<open>
  The first block of \<^verbatim>\<open>main\<close>: without a repeats file the motifs are generated from the
  motif-size range and stored in the namespace.
\<close>

definition catalog :: "(int \<Rightarrow> int \<Rightarrow> bool \<Rightarrow> 'g) \<Rightarrow> 'g args \<Rightarrow> ('g, 'i, 'g args) run" where
  "catalog generate_repeats a =
     (if repeats a = None then
        ([Call_generate_repeats (min_motif_size a) (max_motif_size a) (include_atomic a)],
         Inr (a\<lparr>repeats := Some (Generated
           (generate_repeats (min_motif_size a) (max_motif_size a) (include_atomic a)))\<rparr>))
      else ([], Inr a))"

text \<open>The last block of \<^verbatim>\<open>main\<close>: the annotation and the HTML report.\<close>

definition reports :: "'g args \<Rightarrow> ('g, 'i, unit) run" where
  "reports a =
     then_do (if annotate a \<noteq> None then [Call_annotate a] else [], Inr ())
       (\<lambda>_. (if analyse a then [Call_analyse a] else [], Inr ()))"

definition main ::
  "(int \<Rightarrow> int \<Rightarrow> bool \<Rightarrow> 'g) \<Rightarrow> ('g repeats option \<Rightarrow> cutoff \<Rightarrow> 'i)
     \<Rightarrow> (string \<Rightarrow> opened) \<Rightarrow> cmdline \<Rightarrow> ('g, 'i, unit) run" where
  "main generate_repeats build_rep_set files cl =
     (case getArgs cl of
        Inl e \<Rightarrow> ([], Inl e)
      | Inr a0 \<Rightarrow>
          then_do (catalog generate_repeats a0) (\<lambda>a1.
            then_do (dispatch build_rep_set files a1) reports))"

subsection \<open>Canonical motifs\<close>

text \<open>
  Modelled from the spec: the canonicalization of motifs, which the Motif Catalog Builder
  (\<^verbatim>\<open>generate_repeats\<close> of \<^verbatim>\<open>rep_utils\<close>) performs and which is not part of the sources.
  The spec: two motifs are the same class if one is a cyclic rotation of the other; the
  class is represented by its lexicographically smallest rotation, "achievable by
  concatenating the string with itself and taking the minimal window of length k".
  \<open>rotate_motif j m\<close> is the rotation of \<open>m\<close> by the offset \<open>j\<close> (any integer, taken modulo
  the length), \<open>windows m\<close> are the windows of length k of \<open>m\<close> doubled, one for each
  offset below k, and \<open>canonical m\<close> is the least of them in the lexicographic order of
  strings.
\<close>

definition rotate_motif :: "int \<Rightarrow> string \<Rightarrow> string" where
  "rotate_motif j m = (let k = nat (j mod int (length m)) in drop k m @ take k m)"

definition windows :: "string \<Rightarrow> string list" where
  "windows m = map (\<lambda>i. take (length m) (drop i (m @ m))) [0..<length m]"

definition canonical :: "string \<Rightarrow> string" where
  "canonical m = (case windows m of [] \<Rightarrow> m | w # ws \<Rightarrow> fold min ws w)"

subsection \<open>Observations on a run\<close>

text \<open>What a list of events contains.\<close>

fun is_generate_repeats :: "('g, 'i) event \<Rightarrow> bool" where
  "is_generate_repeats (Call_generate_repeats _ _ _) = True"
| "is_generate_repeats _ = False"

fun is_ssr_native :: "('g, 'i) event \<Rightarrow> bool" where
  "is_ssr_native (Call_ssr_native _ _ _) = True"
| "is_ssr_native _ = False"

fun is_build_rep_set :: "('g, 'i) event \<Rightarrow> bool" where
  "is_build_rep_set (Call_build_rep_set _ _) = True"
| "is_build_rep_set _ = False"

fun is_scan :: "('g, 'i) event \<Rightarrow> bool" where
  "is_scan (Call_fasta_ssrs _ _) = True"
| "is_scan (Call_fastq_ssrs _ _) = True"
| "is_scan _ = False"

fun is_fastq_ssrs :: "('g, 'i) event \<Rightarrow> bool" where
  "is_fastq_ssrs (Call_fastq_ssrs _ _) = True"
| "is_fastq_ssrs _ = False"

fun is_stderr :: "('g, 'i) event \<Rightarrow> bool" where
  "is_stderr (Stderr _) = True"
| "is_stderr _ = False"

fun is_warning :: "('g, 'i) event \<Rightarrow> bool" where
  "is_warning (Stderr (Warning_unit_of_1 _)) = True"
| "is_warning _ = False"

text \<open>The repeats every call of \<^verbatim>\<open>build_rep_set\<close> in the events was given.\<close>

fun build_rep_set_repeats :: "('g, 'i) event list \<Rightarrow> 'g repeats option list" where
  "build_rep_set_repeats [] = []"
| "build_rep_set_repeats (Call_build_rep_set r _ # evs) = r # build_rep_set_repeats evs"
| "build_rep_set_repeats (_ # evs) = build_rep_set_repeats evs"

text \<open>The namespace every invocation of \<^verbatim>\<open>ssr_native\<close> in the events was given.\<close>

fun ssr_native_namespaces :: "('g, 'i) event list \<Rightarrow> 'g args list" where
  "ssr_native_namespaces [] = []"
| "ssr_native_namespaces (Call_ssr_native a _ _ # evs) = a # ssr_native_namespaces evs"
| "ssr_native_namespaces (_ # evs) = ssr_native_namespaces evs"

text \<open>A line of the units file with two leading integer fields.\<close>

definition is_entry :: "string \<Rightarrow> bool" where
  "is_entry line = (case units_line line of Inl _ \<Rightarrow> False | Inr _ \<Rightarrow> True)"

text \<open>
  A line with (at least) two fields of which the first two are not both integers, and a
  line with fewer than two fields.
\<close>

definition not_both_integers :: "string \<Rightarrow> bool" where
  "not_both_integers line =
     (case fields line of
        f0 # f1 # _ \<Rightarrow> py_int f0 = None \<or> py_int f1 = None
      | _ \<Rightarrow> False)"

definition short_line :: "string \<Rightarrow> bool" where
  "short_line line = (length (fields line) < 2)"

text \<open>The motif size a line of the units file names, when its first field is an integer.\<close>

definition line_size :: "string \<Rightarrow> int option" where
  "line_size line = (case fields line of [] \<Rightarrow> None | f0 # _ \<Rightarrow> py_int f0)"

subsection \<open>Sample inputs\<close>

text \<open>
  Collaborators that return their arguments, a file system with five units files, and the
  command line \<^verbatim>\<open>-i genome.fa\<close>, from which the samples below are made by updates.
\<close>

definition sample_generate_repeats :: "int \<Rightarrow> int \<Rightarrow> bool \<Rightarrow> int \<times> int \<times> bool" where
  "sample_generate_repeats m M atomic = (m, M, atomic)"

definition sample_build_rep_set ::
  "(int \<times> int \<times> bool) repeats option \<Rightarrow> cutoff \<Rightarrow> (int \<times> int \<times> bool) repeats option \<times> cutoff" where
  "sample_build_rep_set r c = (r, c)"

definition sample_files :: "string \<Rightarrow> opened" where
  "sample_files path =
     (if path = ''units.txt'' then Opened [''1 12'', ''2  6'', ''2 5'', ''3 1'']
      else if path = ''bad_units.txt'' then Opened [''1 12'', ''2 six'']
      else if path = ''blank_units.txt'' then Opened [''1 12'', [], ''2 6'']
      else if path = ''blank_first_units.txt'' then Opened [[], ''2 six'']
      else if path = ''word_units.txt'' then Opened [''abc'']
      else if path = ''units.txt/x'' then Other_os_error
      else File_not_found)"

definition sample_cmdline :: cmdline where
  "sample_cmdline = \<lparr>
     opt_input = ''genome.fa'', opt_format = None, opt_output = None, opt_repeats = None,
     opt_analyse = False, opt_annotate = None, opt_min_motif_size = None,
     opt_max_motif_size = None, opt_include_atomic = False, opt_min_length = None,
     opt_min_units = None \<rparr>"

text \<open>The namespace \<^verbatim>\<open>getArgs\<close> returns for \<open>sample_cmdline\<close>.\<close>

definition sample_args :: "(int \<times> int \<times> bool) args" where
  "sample_args = \<lparr>
     input_file = ''genome.fa'', format = ''fasta'', output_file = Perf_tsv ''genome.fa'',
     repeats = None, analyse = False, annotate = None, min_motif_size = 1,
     max_motif_size = 6, include_atomic = False, min_length = None,
     min_units = Units_none \<rparr>"

section \<open>Canonicalization is idempotent and invariant under rotation\<close>

text \<open>Each window of the doubled motif is a rotation, and every rotation is a window.\<close>

lemma window_rotate: "i < length m \<Longrightarrow> take (length m) (drop i (m @ m)) = rotate i m"
proof -
  assume "i < length m"
  then have "rotate i m = drop i m @ take i m" by (simp add: rotate_drop_take)
  moreover have "take (length m) (drop i (m @ m)) = drop i m @ take i m" using \<open>i < length m\<close> by simp
  ultimately show ?thesis by simp
qed

lemma windows_rotate: "windows m = map (\<lambda>i. rotate i m) [0..<length m]"
  unfolding windows_def by (rule map_cong[OF refl], rule window_rotate, simp)

lemma rotate_in_windows: "m \<noteq> [] \<Longrightarrow> rotate i m \<in> set (windows m)"
proof -
  assume ne: "m \<noteq> []"
  have lt: "i mod length m < length m" using ne by simp
  have eq: "rotate i m = rotate (i mod length m) m" by (rule rotate_conv_mod)
  have "rotate (i mod length m) m \<in> (\<lambda>i. rotate i m) ` {0..<length m}" using lt by (intro imageI) simp
  then show ?thesis unfolding windows_rotate using eq by simp
qed

lemma set_windows: "m \<noteq> [] \<Longrightarrow> set (windows m) = range (\<lambda>i. rotate i m)"
proof
  assume "m \<noteq> []"
  show "set (windows m) \<subseteq> range (\<lambda>i. rotate i m)" unfolding windows_rotate by auto
  show "range (\<lambda>i. rotate i m) \<subseteq> set (windows m)" using rotate_in_windows[OF \<open>m \<noteq> []\<close>] by auto
qed

lemma rotate_motif_rotate: "rotate_motif j m = rotate (nat (j mod int (length m))) m"
proof (cases "m = []")
  case True then show ?thesis by (simp add: rotate_motif_def)
next
  case False
  let ?k = "nat (j mod int (length m))"
  have "?k < length m" using False by (simp add: nat_less_iff)
  then have "rotate ?k m = drop ?k m @ take ?k m" by (simp add: rotate_drop_take)
  then show ?thesis by (simp add: rotate_motif_def Let_def)
qed

lemma canonical_Min: "m \<noteq> [] \<Longrightarrow> canonical m = Min (set (windows m))"
proof -
  assume "m \<noteq> []"
  then obtain w ws where w: "windows m = w # ws" by (cases "windows m") (auto simp: windows_def)
  have "Min (set (w # ws)) = fold min ws w" by (rule Min.set_eq_fold)
  then show ?thesis unfolding canonical_def w by simp
qed


lemma range_rotate_shift: "m \<noteq> [] \<Longrightarrow> range (\<lambda>i. rotate (i + k) m) = range (\<lambda>i. rotate i m)"
proof
  show "range (\<lambda>i. rotate (i + k) m) \<subseteq> range (\<lambda>i. rotate i m)" by auto
  assume ne: "m \<noteq> []"
  show "range (\<lambda>i. rotate i m) \<subseteq> range (\<lambda>i. rotate (i + k) m)"
  proof
    fix x assume "x \<in> range (\<lambda>i. rotate i m)"
    then obtain i where x: "x = rotate i m" by auto
    let ?n = "length m"
    have pos: "0 < ?n" using ne by simp
    have "(i + k * (?n - 1)) + k = i + k * ?n"
    proof -
      have "k * (?n - 1) + k = k * ?n" using pos by (cases ?n) simp_all
      then show ?thesis by simp
    qed
    then have "rotate ((i + k * (?n - 1)) + k) m = rotate ((i + k * ?n) mod ?n) m"
      by (simp only: rotate_conv_mod[symmetric])
    also have "\<dots> = rotate i m" by (simp add: rotate_conv_mod[symmetric])
    finally have "x = rotate ((i + k * (?n - 1)) + k) m" using x by simp
    then show "x \<in> range (\<lambda>i. rotate (i + k) m)" by (rule range_eqI)
  qed
qed

lemma set_windows_rotate: "set (windows (rotate k m)) = set (windows m)"
proof (cases "m = []")
  case True then show ?thesis by (simp add: windows_def)
next
  case False
  then have "set (windows (rotate k m)) = range (\<lambda>i. rotate i (rotate k m))" by (simp add: set_windows)
  also have "\<dots> = range (\<lambda>i. rotate (i + k) m)" by (simp add: rotate_rotate)
  also have "\<dots> = range (\<lambda>i. rotate i m)" using False by (rule range_rotate_shift)
  finally show ?thesis using False by (simp add: set_windows)
qed

lemma canonical_rotate: "canonical (rotate k m) = canonical m"
proof (cases "m = []")
  case True then show ?thesis by simp
next
  case False
  then have "rotate k m \<noteq> []" by simp
  then have "canonical (rotate k m) = Min (set (windows (rotate k m)))" by (rule canonical_Min)
  also have "\<dots> = Min (set (windows m))" by (simp only: set_windows_rotate)
  also have "\<dots> = canonical m" using False by (rule canonical_Min[symmetric])
  finally show ?thesis .
qed

lemma canonical_in: "m \<noteq> [] \<Longrightarrow> canonical m \<in> set (windows m)"
proof -
  assume ne: "m \<noteq> []"
  then have "set (windows m) \<noteq> {}" by (simp add: windows_def)
  then have "Min (set (windows m)) \<in> set (windows m)" by (intro Min_in) simp_all
  moreover have "canonical m = Min (set (windows m))" using ne by (rule canonical_Min)
  ultimately show ?thesis by simp
qed

lemma canonical_idem: "canonical (canonical m) = canonical m"
proof (cases "m = []")
  case True then show ?thesis by (simp add: canonical_def windows_def)
next
  case False
  then obtain i where "canonical m = rotate i m" using canonical_in set_windows by blast
  then show ?thesis by (simp only: canonical_rotate)
qed

text \<open>
  Claim C7: motif canonicalization is idempotent and rotation-invariant: for every motif
  \<open>m\<close>, the canonical form of the canonical form of \<open>m\<close> is the canonical form of \<open>m\<close>, and
  for every rotation offset \<open>j\<close> the rotation of \<open>m\<close> by \<open>j\<close> has the canonical form of \<open>m\<close>.
\<close>

theorem canonical_idempotent_rotation_invariant:
  "canonical (canonical m) = canonical m \<and> canonical (rotate_motif j m) = canonical m"
  by (simp only: canonical_idem rotate_motif_rotate canonical_rotate)

section \<open>Runs of \<^verbatim>\<open>main\<close>, block by block\<close>

lemma then_do_Inl: "then_do (ev, Inl e) f = (ev, Inl e)"
  by (simp add: then_do_def)

lemma then_do_Inr: "then_do (ev, Inr x) f = (ev @ fst (f x), snd (f x))"
  by (simp add: then_do_def split: prod.splits)

lemma fst_then_do:
  "fst (then_do m f) = (case snd m of Inl e \<Rightarrow> fst m | Inr x \<Rightarrow> fst m @ fst (f x))"
  by (cases m) (simp add: then_do_def split: sum.splits prod.splits)

lemma snd_then_do:
  "snd (then_do m f) = (case snd m of Inl e \<Rightarrow> Inl e | Inr x \<Rightarrow> snd (f x))"
  by (cases m) (simp add: then_do_def split: sum.splits prod.splits)

lemma build_rep_set_repeats_append:
  "build_rep_set_repeats (xs @ ys) = build_rep_set_repeats xs @ build_rep_set_repeats ys"
  by (induction xs rule: build_rep_set_repeats.induct) simp_all

text \<open>\<^verbatim>\<open>ssr_native\<close>, branch by branch.\<close>

lemma ssr_native_length:
  "truthy_length lc \<Longrightarrow> min_length a = Some l \<Longrightarrow>
   ssr_native brs a lc uc =
     (if format a = ''fasta''
      then ([Call_build_rep_set (repeats a) (Length_cutoff (Some l)), Stderr (Using_length_cutoff l),
             Call_fasta_ssrs a (brs (repeats a) (Length_cutoff (Some l)))], Inr ())
      else ([Call_build_rep_set (repeats a) (Length_cutoff (Some l)), Stderr (Using_length_cutoff l)],
            Inl (Name_error ''input_format'')))"
  by (simp add: ssr_native_def bind_repeats_info_def then_do_def module_globals_def Let_def)

lemma ssr_native_units:
  "t \<noteq> [] \<Longrightarrow>
   ssr_native brs a None (Some t) =
     (if format a = ''fasta''
      then ([Call_build_rep_set (repeats a) (Unit_cutoff t), Stderr (Using_unit_cutoff t),
             Call_fasta_ssrs a (brs (repeats a) (Unit_cutoff t))], Inr ())
      else ([Call_build_rep_set (repeats a) (Unit_cutoff t), Stderr (Using_unit_cutoff t)],
            Inl (Name_error ''input_format'')))"
  by (simp add: ssr_native_def bind_repeats_info_def then_do_def module_globals_def Let_def
      truthy_length_def truthy_table_def)

lemma ssr_native_empty_units:
  "ssr_native brs a None (Some []) =
     (if format a = ''fasta'' then ([], Inl (Unbound_local_error ''repeats_info''))
      else ([], Inl (Name_error ''input_format'')))"
  by (simp add: ssr_native_def bind_repeats_info_def then_do_def module_globals_def Let_def
      truthy_length_def truthy_table_def)

lemma ssr_native_quiet:
  "list_all (\<lambda>e. \<not> is_ssr_native e \<and> \<not> is_generate_repeats e \<and> \<not> is_warning e)
     (fst (ssr_native brs a lc uc))"
  by (simp add: ssr_native_def bind_repeats_info_def then_do_def module_globals_def Let_def
      split: option.splits)

lemma ssr_native_repeats:
  "list_all (\<lambda>r. r = repeats a) (build_rep_set_repeats (fst (ssr_native brs a lc uc)))"
  by (simp add: ssr_native_def bind_repeats_info_def then_do_def module_globals_def Let_def
      split: option.splits)

lemma getArgs_accepts:
  assumes "getArgs cl = Inr a"
  shows "min_length a = opt_min_length cl"
    and "min_units a = (case opt_min_units cl of None \<Rightarrow> Units_none | Some u \<Rightarrow> Units_str u)"
    and "repeats a = map_option Repeats_file (opt_repeats cl)"
    and "opt_min_length cl = None \<or> opt_min_units cl = None"
  using assms by (auto simp: getArgs_def parse_args_def split: if_splits)

lemma catalog_result:
  fixes a :: "'g args" and gen :: "int \<Rightarrow> int \<Rightarrow> bool \<Rightarrow> 'g"
  obtains g :: "('g, 'i) event list" and a1 where "catalog gen a = (g, Inr a1)"
    and "g = (if repeats a = None
              then [Call_generate_repeats (min_motif_size a) (max_motif_size a) (include_atomic a)]
              else [])"
    and "a1 = (if repeats a = None
               then a\<lparr>repeats := Some (Generated
                 (gen (min_motif_size a) (max_motif_size a) (include_atomic a)))\<rparr>
               else a)"
  by (simp add: catalog_def)

lemma reports_events:
  "list_all (\<lambda>e. \<not> is_ssr_native e \<and> \<not> is_generate_repeats e \<and> \<not> is_build_rep_set e
      \<and> \<not> is_stderr e \<and> \<not> is_scan e) (fst (reports a))"
  and reports_returns: "snd (reports a) = Inr ()"
  by (simp_all add: reports_def then_do_def)

lemma reports_filters:
  "filter is_ssr_native (fst (reports a)) = []"
  "filter is_generate_repeats (fst (reports a)) = []"
  "filter is_build_rep_set (fst (reports a)) = []"
  "build_rep_set_repeats (fst (reports a)) = []"
  "list_ex is_ssr_native (fst (reports a)) = False"
  "list_ex is_stderr (fst (reports a)) = False"
  "list_ex is_build_rep_set (fst (reports a)) = False"
  "list_ex is_scan (fst (reports a)) = False"
  by (simp_all add: reports_def then_do_def)

lemma main_accepted:
  assumes "getArgs cl = Inr a" and "catalog gen a = (g, Inr a1)"
  shows "fst (main gen brs files cl) =
           g @ (case snd (dispatch brs files a1) of
                  Inl e \<Rightarrow> fst (dispatch brs files a1)
                | Inr a2 \<Rightarrow> fst (dispatch brs files a1) @ fst (reports a2))"
    and "snd (main gen brs files cl) =
           (case snd (dispatch brs files a1) of Inl e \<Rightarrow> Inl e | Inr a2 \<Rightarrow> Inr ())"
  using assms by (simp_all add: main_def then_do_Inr fst_then_do snd_then_do reports_returns
      split: sum.splits)

lemma is_warning_only:
  "is_warning e \<Longrightarrow> \<not> is_ssr_native e \<and> \<not> is_generate_repeats e \<and> \<not> is_build_rep_set e
     \<and> \<not> is_scan e"
  by (cases e rule: is_warning.cases) simp_all

lemma read_units_warnings: "list_all is_warning (fst (read_units uc ls))"
proof (induction ls arbitrary: uc)
  case Nil
  show ?case by simp
next
  case (Cons line rest)
  show ?case
  proof (cases "units_line line")
    case (Inl e)
    then show ?thesis by simp
  next
    case (Inr kv)
    obtain k v where kv: "kv = (k, v)" by (cases kv)
    show ?thesis using Cons.IH[of "AList.update k v uc"]
      by (simp add: Inr kv then_do_Inr)
  qed
qed

lemma filter_none: "list_all (\<lambda>e. \<not> P e) xs \<Longrightarrow> filter P xs = []"
  by (induction xs) simp_all

lemma list_ex_none: "list_all (\<lambda>e. \<not> P e) xs \<Longrightarrow> \<not> list_ex P xs"
  by (induction xs) simp_all

lemma build_rep_set_repeats_none:
  "list_all (\<lambda>e. \<not> is_build_rep_set e) xs \<Longrightarrow> build_rep_set_repeats xs = []"
  by (induction xs rule: build_rep_set_repeats.induct) simp_all

lemma read_units_filters:
  "filter is_ssr_native (fst (read_units uc ls)) = []"
  "filter is_generate_repeats (fst (read_units uc ls)) = []"
  "build_rep_set_repeats (fst (read_units uc ls)) = []"
  "\<not> list_ex is_ssr_native (fst (read_units uc ls))"
  "\<not> list_ex is_scan (fst (read_units uc ls))"
proof -
  have w: "list_all is_warning (fst (read_units uc ls))" by (rule read_units_warnings)
  have "list_all (\<lambda>e. \<not> is_ssr_native e) (fst (read_units uc ls))"
    using w by (rule list.pred_mono_strong) (simp add: is_warning_only)
  then show "filter is_ssr_native (fst (read_units uc ls)) = []"
    by (rule filter_none)
  have "list_all (\<lambda>e. \<not> is_ssr_native e) (fst (read_units uc ls))"
    using w by (rule list.pred_mono_strong) (simp add: is_warning_only)
  then show "\<not> list_ex is_ssr_native (fst (read_units uc ls))"
    by (rule list_ex_none)
  have "list_all (\<lambda>e. \<not> is_generate_repeats e) (fst (read_units uc ls))"
    using w by (rule list.pred_mono_strong) (simp add: is_warning_only)
  then show "filter is_generate_repeats (fst (read_units uc ls)) = []"
    by (rule filter_none)
  have "list_all (\<lambda>e. \<not> is_build_rep_set e) (fst (read_units uc ls))"
    using w by (rule list.pred_mono_strong) (simp add: is_warning_only)
  then show "build_rep_set_repeats (fst (read_units uc ls)) = []"
    by (rule build_rep_set_repeats_none)
  have "list_all (\<lambda>e. \<not> is_scan e) (fst (read_units uc ls))"
    using w by (rule list.pred_mono_strong) (simp add: is_warning_only)
  then show "\<not> list_ex is_scan (fst (read_units uc ls))"
    by (rule list_ex_none)
qed

lemma ssr_native_filters:
  "filter is_ssr_native (fst (ssr_native brs a lc uc)) = []"
  "filter is_generate_repeats (fst (ssr_native brs a lc uc)) = []"
  "\<not> list_ex is_fastq_ssrs (fst (ssr_native brs a lc uc))"
  by (simp_all add: ssr_native_def bind_repeats_info_def then_do_def module_globals_def Let_def
      split: option.splits)

lemma call_ssr_native_events:
  "fst (call_ssr_native brs a lc uc) = Call_ssr_native a lc uc # fst (ssr_native brs a lc uc)"
  "snd (call_ssr_native brs a lc uc) = snd (ssr_native brs a lc uc)"
  by (simp_all add: call_ssr_native_def then_do_Inr)

lemma scalar_units_events:
  fixes a :: "'g args" and brs :: "'g repeats option \<Rightarrow> cutoff \<Rightarrow> 'i"
  shows "fst (scalar_units brs a n) =
     Call_ssr_native (a\<lparr>min_units := Units_int n\<rparr>) None (Some [(0, n)])
       # fst (ssr_native brs (a\<lparr>min_units := Units_int n\<rparr>) None (Some [(0, n)]))"
  by (simp add: scalar_units_def Let_def fst_then_do call_ssr_native_events split: sum.splits)

lemma file_units_events:
  fixes a :: "'g args" and brs :: "'g repeats option \<Rightarrow> cutoff \<Rightarrow> 'i"
  shows "fst (file_units brs files a path) =
     (case files path of
        File_not_found \<Rightarrow> []
      | Other_os_error \<Rightarrow> []
      | Opened ls \<Rightarrow>
          fst (read_units [] ls) @
          (case snd (read_units [] ls :: ('g, 'i, unit_table) run) of
             Inl e \<Rightarrow> []
           | Inr t \<Rightarrow> Call_ssr_native a None (Some t) # fst (ssr_native brs a None (Some t))))"
  by (auto simp: file_units_def fst_then_do snd_then_do call_ssr_native_events
      split: opened.splits sum.splits)

lemma file_units_result:
  fixes a :: "'g args" and brs :: "'g repeats option \<Rightarrow> cutoff \<Rightarrow> 'i"
  shows "snd (file_units brs files a path) =
     (case files path of
        File_not_found \<Rightarrow> Inl (System_exit units_not_found_msg)
      | Other_os_error \<Rightarrow> Inl Os_error
      | Opened ls \<Rightarrow>
          (case snd (read_units [] ls :: ('g, 'i, unit_table) run) of
             Inl e \<Rightarrow> Inl e
           | Inr t \<Rightarrow> (case snd (ssr_native brs a None (Some t)) of Inl e \<Rightarrow> Inl e | Inr _ \<Rightarrow> Inr a)))"
  by (auto simp: file_units_def fst_then_do snd_then_do call_ssr_native_events
      split: opened.splits sum.splits)

lemma dispatch_cases:
  fixes a :: "'g args" and brs :: "'g repeats option \<Rightarrow> cutoff \<Rightarrow> 'i"
  obtains
    (by_length) l where "min_length a = Some l" and "l \<noteq> 0"
      and "dispatch brs files a =
             then_do (call_ssr_native brs a (Some l) None) (\<lambda>_. ([], Inr a))"
  | (by_scalar) n where "dispatch brs files a = scalar_units brs a n"
  | (by_file) path where "min_units a = Units_str path"
      and "dispatch brs files a = file_units brs files a path"
  | (by_default) "min_length a = None"
      and "dispatch brs files a =
             then_do (call_ssr_native brs (a\<lparr>min_length := Some 12\<rparr>) (Some 12) None)
               (\<lambda>_. ([], Inr (a\<lparr>min_length := Some 12\<rparr>)))"
  | (no_branch) "dispatch brs files a = ([], Inr a)"
proof (cases "truthy_length (min_length a)")
  case True
  then obtain l where l: "min_length a = Some l" "l \<noteq> 0"
    by (auto simp: truthy_length_def truthy_int_def split: option.splits)
  have "dispatch brs files a = then_do (call_ssr_native brs a (Some l) None) (\<lambda>_. ([], Inr a))"
    using True l by (simp add: dispatch_def)
  with l show ?thesis by (rule by_length)
next
  case False
  show ?thesis
  proof (cases "truthy_units (min_units a)")
    case True
    then have d: "dispatch brs files a = units_branch brs files a"
      using False by (simp add: dispatch_def)
    show ?thesis
    proof (cases "min_units a")
      case Units_none
      then show ?thesis using True by (simp add: truthy_units_def)
    next
      case (Units_str s)
      show ?thesis
      proof (cases "py_int s")
        case None
        have "dispatch brs files a = file_units brs files a s"
          using d Units_str None by (simp add: units_branch_def)
        with Units_str show ?thesis by (rule by_file)
      next
        case (Some n)
        have "dispatch brs files a = scalar_units brs a n"
          using d Units_str Some by (simp add: units_branch_def)
        then show ?thesis by (rule by_scalar)
      qed
    next
      case (Units_int n)
      have "dispatch brs files a = scalar_units brs a n"
        using d Units_int by (simp add: units_branch_def)
      then show ?thesis by (rule by_scalar)
    qed
  next
    case nu: False
    show ?thesis
    proof (cases "min_length a = None \<and> min_units a = Units_none")
      case True
      have "dispatch brs files a =
             then_do (call_ssr_native brs (a\<lparr>min_length := Some 12\<rparr>) (Some 12) None)
               (\<lambda>_. ([], Inr (a\<lparr>min_length := Some 12\<rparr>)))"
        using True False nu by (simp add: dispatch_def Let_def)
      with True show ?thesis by (intro by_default) simp_all
    next
      case nd: False
      have "dispatch brs files a = ([], Inr a)"
        using nd False nu by (auto simp: dispatch_def)
      then show ?thesis by (rule no_branch)
    qed
  qed
qed

lemma dispatch_no_generate:
  fixes a :: "'g args" and brs :: "'g repeats option \<Rightarrow> cutoff \<Rightarrow> 'i"
  shows "filter is_generate_repeats (fst (dispatch brs files a)) = []"
proof (cases rule: dispatch_cases[where a=a and brs=brs and files=files])
  case (by_length l)
  then show ?thesis
    by (simp add: fst_then_do call_ssr_native_events ssr_native_filters split: sum.splits)
next
  case (by_scalar n)
  then show ?thesis by (simp add: scalar_units_events ssr_native_filters)
next
  case (by_file path)
  then show ?thesis
    by (simp add: file_units_events ssr_native_filters read_units_filters
        split: opened.splits sum.splits)
next
  case by_default
  then show ?thesis
    by (simp add: fst_then_do call_ssr_native_events ssr_native_filters split: sum.splits)
next
  case no_branch
  then show ?thesis by simp
qed

lemma dispatch_repeats:
  fixes a :: "'g args" and brs :: "'g repeats option \<Rightarrow> cutoff \<Rightarrow> 'i"
  shows "list_all (\<lambda>r. r = repeats a) (build_rep_set_repeats (fst (dispatch brs files a)))"
proof -
  have r: "list_all (\<lambda>r. r = repeats a) (build_rep_set_repeats (fst (ssr_native brs a' lc uc)))"
    if "repeats a' = repeats a" for a' lc uc
    using ssr_native_repeats[of a' brs lc uc] that by simp
  show ?thesis
  proof (cases rule: dispatch_cases[where a=a and brs=brs and files=files])
    case (by_length l)
    then show ?thesis
      by (simp add: fst_then_do call_ssr_native_events r split: sum.splits)
  next
    case (by_scalar n)
    then show ?thesis by (simp add: scalar_units_events r)
  next
    case (by_file path)
    then show ?thesis
      by (simp add: file_units_events r read_units_filters build_rep_set_repeats_append
          split: opened.splits sum.splits)
  next
    case by_default
    then show ?thesis
      by (simp add: fst_then_do call_ssr_native_events r split: sum.splits)
  next
    case no_branch
    then show ?thesis by simp
  qed
qed

lemma units_line_error:
  "units_line l = Inl e \<Longrightarrow>
     e = System_exit invalid_units_msg \<or> (e = Index_error \<and> short_line l)"
  by (auto simp: units_line_def short_line_def split: list.splits option.splits)

lemma not_both_integers_exits:
  "not_both_integers l \<Longrightarrow> units_line l = Inl (System_exit invalid_units_msg)"
  by (auto simp: units_line_def not_both_integers_def split: list.splits option.splits)

lemma short_line_index_error:
  "fields l = [] \<or> (\<exists>f. fields l = [f] \<and> py_int f \<noteq> None) \<Longrightarrow> units_line l = Inl Index_error"
  by (auto simp: units_line_def)

lemma is_entry_iff: "is_entry l \<longleftrightarrow> (\<exists>k v. units_line l = Inr (k, v))"
  by (auto simp: is_entry_def split: sum.splits)

lemma read_units_entry:
  "units_line l = Inr (k, v) \<Longrightarrow>
     snd (read_units uc (l # rest) :: ('g, 'i, unit_table) run) =
       snd (read_units (AList.update k v uc) rest :: ('g, 'i, unit_table) run)"
  by (simp add: snd_then_do)

lemma read_units_malformed:
  "list_ex not_both_integers ls \<Longrightarrow>
     snd (read_units uc ls :: ('g, 'i, unit_table) run) = Inl (System_exit invalid_units_msg)
     \<or> (snd (read_units uc ls :: ('g, 'i, unit_table) run) = Inl Index_error
         \<and> list_ex short_line ls)"
proof (induction ls arbitrary: uc)
  case Nil
  then show ?case by simp
next
  case (Cons line rest)
  show ?case
  proof (cases "units_line line")
    case (Inl e)
    then show ?thesis using units_line_error[OF Inl] by auto
  next
    case (Inr kv)
    obtain k v where kv: "kv = (k, v)" by (cases kv)
    have "\<not> not_both_integers line" using Inr not_both_integers_exits by fastforce
    then have "list_ex not_both_integers rest" using Cons.prems by simp
    have step: "snd (read_units uc (line # rest) :: ('g, 'i, unit_table) run) =
        snd (read_units (AList.update k v uc) rest :: ('g, 'i, unit_table) run)"
      using Inr kv by (intro read_units_entry) simp
    have ex: "list_ex short_line rest \<Longrightarrow> list_ex short_line (line # rest)" by simp
    from Cons.IH[OF \<open>list_ex not_both_integers rest\<close>, of "AList.update k v uc"]
    show ?thesis unfolding step using ex by blast
  qed
qed

lemma read_units_first_error:
  "list_all is_entry pre \<Longrightarrow> units_line l = Inl e \<Longrightarrow>
     snd (read_units uc (pre @ l # post) :: ('g, 'i, unit_table) run) = Inl e"
proof (induction pre arbitrary: uc)
  case Nil
  then show ?case by simp
next
  case (Cons line rest)
  then obtain k v where kv: "units_line line = Inr (k, v)" by (auto simp: is_entry_iff)
  show ?case using Cons.IH[of "AList.update k v uc"] Cons.prems
    by (simp add: read_units_entry[OF kv] del: read_units.simps)
qed

lemma entry_line_size: "units_line l = Inr (k, v) \<Longrightarrow> line_size l = Some k"
  by (auto simp: units_line_def line_size_def split: list.splits option.splits)

lemma read_units_other_sizes:
  "list_all is_entry post \<Longrightarrow> list_all (\<lambda>l'. line_size l' \<noteq> Some k) post \<Longrightarrow>
     \<exists>t. snd (read_units uc post :: ('g, 'i, unit_table) run) = Inr t \<and> map_of t k = map_of uc k"
proof (induction post arbitrary: uc)
  case Nil
  then show ?case by simp
next
  case (Cons line rest)
  then obtain k' v' where kv: "units_line line = Inr (k', v')" by (auto simp: is_entry_iff)
  then have "k' \<noteq> k" using Cons.prems(2) entry_line_size by fastforce
  then have "map_of (AList.update k' v' uc) k = map_of uc k" by (simp add: update_conv')
  moreover obtain t where "snd (read_units (AList.update k' v' uc) rest :: ('g, 'i, unit_table) run) = Inr t"
    and "map_of t k = map_of (AList.update k' v' uc) k"
    using Cons.IH[of "AList.update k' v' uc"] Cons.prems by auto
  ultimately show ?case by (simp add: read_units_entry[OF kv] del: read_units.simps)
qed

lemma read_units_prefix:
  "list_all is_entry pre \<Longrightarrow>
     \<exists>t0. snd (read_units uc (pre @ rest) :: ('g, 'i, unit_table) run) =
           snd (read_units t0 rest :: ('g, 'i, unit_table) run)"
proof (induction pre arbitrary: uc)
  case Nil
  show ?case by auto
next
  case (Cons line more)
  then obtain k v where kv: "units_line line = Inr (k, v)" by (auto simp: is_entry_iff)
  show ?case using Cons.IH[of "AList.update k v uc"] Cons.prems
    by (simp add: read_units_entry[OF kv] del: read_units.simps)
qed

lemma read_units_last_wins:
  assumes "list_all is_entry pre" and "units_line l = Inr (k, v)" and "list_all is_entry post"
    and "list_all (\<lambda>l'. line_size l' \<noteq> Some k) post"
  shows "\<exists>t. snd (read_units uc (pre @ l # post) :: ('g, 'i, unit_table) run) = Inr t
            \<and> map_of t k = Some v"
proof -
  obtain t0 where p: "snd (read_units uc (pre @ l # post) :: ('g, 'i, unit_table) run) =
           snd (read_units t0 (l # post) :: ('g, 'i, unit_table) run)"
    using read_units_prefix[OF assms(1)] by blast
  obtain t where t: "snd (read_units (AList.update k v t0) post :: ('g, 'i, unit_table) run) = Inr t"
    and m: "map_of t k = map_of (AList.update k v t0) k"
    using read_units_other_sizes[OF assms(3,4)] by blast
  have "map_of t k = Some v" using m by (simp add: update_conv')
  then show ?thesis using p t by (simp add: read_units_entry[OF assms(2)] del: read_units.simps)
qed

text \<open>\<^verbatim>\<open>main\<close> on a units file.\<close>

lemma main_units_file:
  fixes a :: "'g args" and gen :: "int \<Rightarrow> int \<Rightarrow> bool \<Rightarrow> 'g"
    and brs :: "'g repeats option \<Rightarrow> cutoff \<Rightarrow> 'i"
  assumes acc: "getArgs cl = Inr a" and u: "opt_min_units cl = Some u" "u \<noteq> []" "py_int u = None"
  obtains g :: "('g, 'i) event list" and a1 where
    "filter is_ssr_native g = []" and "\<not> list_ex is_scan g" and "\<not> list_ex is_ssr_native g"
    and "fst (main gen brs files cl) =
           g @ (case snd (file_units brs files a1 u) of
                  Inl e \<Rightarrow> fst (file_units brs files a1 u)
                | Inr a2 \<Rightarrow> fst (file_units brs files a1 u) @ fst (reports a2))"
    and "snd (main gen brs files cl) =
           (case snd (file_units brs files a1 u) of Inl e \<Rightarrow> Inl e | Inr a2 \<Rightarrow> Inr ())"
proof -
  obtain g :: "('g, 'i) event list" and a1 where c: "catalog gen a = (g, Inr a1)"
    and g: "g = (if repeats a = None
              then [Call_generate_repeats (min_motif_size a) (max_motif_size a) (include_atomic a)]
              else [])"
    and a1: "a1 = (if repeats a = None
               then a\<lparr>repeats := Some (Generated
                 (gen (min_motif_size a) (max_motif_size a) (include_atomic a)))\<rparr>
               else a)"
    by (rule catalog_result)
  have "opt_min_length cl = None" using getArgs_accepts(4)[OF acc] u(1) by simp
  then have "min_length a = None" and "min_units a = Units_str u"
    using getArgs_accepts(1,2)[OF acc] u(1) by simp_all
  then have l1: "min_length a1 = None" and u1: "min_units a1 = Units_str u"
    by (simp_all add: a1)
  have d: "dispatch brs files a1 = file_units brs files a1 u"
    by (simp add: dispatch_def units_branch_def l1 u1 truthy_length_def truthy_units_def u)
  show ?thesis
  proof (rule that[of g a1])
    show "filter is_ssr_native g = []" "\<not> list_ex is_scan g" "\<not> list_ex is_ssr_native g"
      by (simp_all add: g)
    show "fst (main gen brs files cl) =
           g @ (case snd (file_units brs files a1 u) of
                  Inl e \<Rightarrow> fst (file_units brs files a1 u)
                | Inr a2 \<Rightarrow> fst (file_units brs files a1 u) @ fst (reports a2))"
      using main_accepted(1)[OF acc c, of brs files] unfolding d .
    show "snd (main gen brs files cl) =
           (case snd (file_units brs files a1 u) of Inl e \<Rightarrow> Inl e | Inr a2 \<Rightarrow> Inr ())"
      using main_accepted(2)[OF acc c, of brs files] unfolding d .
  qed
qed

lemma read_units_entry_events:
  "units_line l = Inr (k, v) \<Longrightarrow>
     fst (read_units uc (l # rest) :: ('g, 'i, unit_table) run) =
       (if v = 1 then [Stderr (Warning_unit_of_1 k)] else []) @
       fst (read_units (AList.update k v uc) rest :: ('g, 'i, unit_table) run)"
  by (simp add: fst_then_do)

lemma read_units_warns:
  "list_all is_entry pre \<Longrightarrow> units_line l = Inr (k, 1) \<Longrightarrow>
     Stderr (Warning_unit_of_1 k)
       \<in> set (fst (read_units uc (pre @ l # post) :: ('g, 'i, unit_table) run))"
proof (induction pre arbitrary: uc)
  case Nil
  then show ?case by (simp add: read_units_entry_events del: read_units.simps)
next
  case (Cons line rest)
  then obtain k' v' where kv: "units_line line = Inr (k', v')" by (auto simp: is_entry_iff)
  show ?case using Cons.IH[of "AList.update k' v' uc"] Cons.prems
    by (simp add: read_units_entry_events[OF kv] del: read_units.simps)
qed

text \<open>
  The sibling path of the scalar one: an entry of the units file with the unit count 1,
  once the loop reaches it, is reported on stderr.
\<close>

lemma units_file_entry_of_1_warns:
  fixes a :: "'g args" and gen :: "int \<Rightarrow> int \<Rightarrow> bool \<Rightarrow> 'g"
    and brs :: "'g repeats option \<Rightarrow> cutoff \<Rightarrow> 'i"
  assumes "getArgs cl = Inr a" and "opt_min_units cl = Some u" and "u \<noteq> []"
    and "py_int u = None"
    and "files u = Opened (pre @ l # post)"
    and "list_all is_entry pre" and "units_line l = Inr (k, 1)"
  shows "Stderr (Warning_unit_of_1 k) \<in> set (fst (main gen brs files cl))"
proof -
  obtain g :: "('g, 'i) event list" and a1 where
    f: "fst (main gen brs files cl) =
           g @ (case snd (file_units brs files a1 u) of
                  Inl e \<Rightarrow> fst (file_units brs files a1 u)
                | Inr a2 \<Rightarrow> fst (file_units brs files a1 u) @ fst (reports a2))"
    using main_units_file[OF assms(1-4), of gen brs files] by blast
  have "Stderr (Warning_unit_of_1 k)
      \<in> set (fst (read_units [] (pre @ l # post) :: ('g, 'i, unit_table) run))"
    by (rule read_units_warns[OF assms(6,7)])
  then have "Stderr (Warning_unit_of_1 k) \<in> set (fst (file_units brs files a1 u))"
    by (simp add: file_units_events assms(5) del: read_units.simps)
  then show ?thesis by (simp add: f split: sum.splits)
qed

section \<open>The claims\<close>

text \<open>The sample command lines are accepted by \<^verbatim>\<open>getArgs\<close>.\<close>

lemma sample_accepted: "getArgs sample_cmdline = Inr sample_args"
  by (simp add: getArgs_def parse_args_def sample_cmdline_def sample_args_def py_or_def
      truthy_int_def)

lemma sample_units_accepted:
  "getArgs (sample_cmdline\<lparr>opt_min_units := Some u\<rparr>) = Inr (sample_args\<lparr>min_units := Units_str u\<rparr>)"
  by (simp add: getArgs_def parse_args_def sample_cmdline_def sample_args_def py_or_def
      truthy_int_def)

text \<open>
  Claim C1: \<^verbatim>\<open>getArgs\<close> rejects a repeats file only together with \<^verbatim>\<open>-m\<close> and/or \<^verbatim>\<open>-M\<close>, and
  accepts a repeats file when the motif-size options are left at their defaults (1 and 6).
  The code does not: the test \<^verbatim>\<open>args.repeats and (args.min_motif_size or args.max_motif_size)\<close>
  reads the values after the defaults have been filled in, and the defaults are true. For
  the command line \<^verbatim>\<open>-i genome.fa -rep repeats.txt\<close> \<^verbatim>\<open>getArgs\<close> ends in
  \<^verbatim>\<open>parser.error("-rep is not allowed with -m/-M")\<close>.
\<close>

theorem getArgs_rejects_repeats_file_with_default_sizes:
  "getArgs (sample_cmdline\<lparr>opt_repeats := Some ''repeats.txt''\<rparr>) =
    (Inl (Parser_error ''-rep is not allowed with -m/-M'') :: error + (int \<times> int \<times> bool) args)"
  by (simp add: getArgs_def parse_args_def sample_cmdline_def py_or_def truthy_int_def)

text \<open>A repeats file is accepted only when both sizes are given as 0.\<close>

lemma getArgs_repeats_only_with_zero_sizes:
  "getArgs cl = Inr a \<Longrightarrow> opt_repeats cl = Some p \<Longrightarrow>
     opt_min_motif_size cl = Some 0 \<and> opt_max_motif_size cl = Some 0"
  by (auto simp: getArgs_def parse_args_def py_or_def truthy_int_def
      split: if_splits option.splits)

text \<open>
  Claim C2: for a valid configuration with the input format \<^verbatim>\<open>fastq\<close>, \<^verbatim>\<open>ssr_native\<close> hands
  the run to \<^verbatim>\<open>fastq_ssrs\<close> and completes without raising. The code does not: the branch
  tests the unbound name \<^verbatim>\<open>input_format\<close> where the branch before it tests
  \<^verbatim>\<open>args.format\<close>. For the command line \<^verbatim>\<open>-i genome.fa --format fastq\<close> the run ends in an
  uncaught \<^verbatim>\<open>NameError\<close>, and \<^verbatim>\<open>fastq_ssrs\<close> is never called.
\<close>

theorem fastq_run_raises_name_error:
  "snd (main sample_generate_repeats sample_build_rep_set sample_files
          (sample_cmdline\<lparr>opt_format := Some ''fastq''\<rparr>)) = Inl (Name_error ''input_format'')
   \<and> \<not> list_ex is_fastq_ssrs (fst (main sample_generate_repeats sample_build_rep_set sample_files
          (sample_cmdline\<lparr>opt_format := Some ''fastq''\<rparr>)))"
  by code_simp

text \<open>Every format other than \<^verbatim>\<open>fasta\<close> makes \<^verbatim>\<open>ssr_native\<close> raise.\<close>

lemma ssr_native_not_fasta:
  "format a \<noteq> ''fasta'' \<Longrightarrow> \<exists>e. snd (ssr_native brs a lc uc) = Inl e"
  by (simp add: ssr_native_def bind_repeats_info_def then_do_def module_globals_def Let_def
      split: option.splits)

text \<open>
  Claim C3: for every configuration in which neither \<^verbatim>\<open>--min-length\<close> nor \<^verbatim>\<open>--min-units\<close>
  is supplied, \<^verbatim>\<open>main\<close> applies a uniform minimum length of 12 bp: it sets
  \<^verbatim>\<open>args.min_length\<close> to 12 and invokes \<^verbatim>\<open>ssr_native\<close> with \<^verbatim>\<open>length_cutoff=12\<close>. A
  configuration is a command line that \<^verbatim>\<open>getArgs\<close> accepts. \<^verbatim>\<open>ssr_native\<close> is invoked
  exactly once, on a namespace whose \<^verbatim>\<open>min_length\<close> is 12; its one call of
  \<^verbatim>\<open>build_rep_set\<close> is given the length cutoff 12, and the cutoff is reported on stderr.
\<close>

theorem main_default_length_cutoff_12:
  fixes a :: "'g args" and gen :: "int \<Rightarrow> int \<Rightarrow> bool \<Rightarrow> 'g"
    and brs :: "'g repeats option \<Rightarrow> cutoff \<Rightarrow> 'i"
  assumes "getArgs cl = Inr a" and "opt_min_length cl = None" and "opt_min_units cl = None"
  shows "\<exists>a'. min_length a' = Some 12
           \<and> filter is_ssr_native (fst (main gen brs files cl)) = [Call_ssr_native a' (Some 12) None]
           \<and> filter is_build_rep_set (fst (main gen brs files cl)) =
               [Call_build_rep_set (repeats a') (Length_cutoff (Some 12))]
           \<and> Stderr (Using_length_cutoff 12) \<in> set (fst (main gen brs files cl))"
proof -
  have l: "min_length a = None" and u: "min_units a = Units_none"
    using getArgs_accepts(1,2)[OF assms(1)] assms(2,3) by simp_all
  obtain g :: "('g, 'i) event list" and a1 where c: "catalog gen a = (g, Inr a1)"
    and g: "g = (if repeats a = None
              then [Call_generate_repeats (min_motif_size a) (max_motif_size a) (include_atomic a)]
              else [])"
    and a1: "a1 = (if repeats a = None
               then a\<lparr>repeats := Some (Generated
                 (gen (min_motif_size a) (max_motif_size a) (include_atomic a)))\<rparr>
               else a)"
    by (rule catalog_result)
  define a' where "a' = a1\<lparr>min_length := Some 12\<rparr>"
  have l1: "min_length a1 = None" and u1: "min_units a1 = Units_none"
    using l u by (simp_all add: a1)
  have s: "truthy_length (Some 12)" "min_length a' = Some 12"
    by (simp_all add: truthy_length_def truthy_int_def a'_def)
  have d: "dispatch brs files a1 =
      then_do (call_ssr_native brs a' (Some 12) None) (\<lambda>_. ([], Inr a'))"
    by (simp add: dispatch_def l1 u1 truthy_length_def truthy_units_def a'_def Let_def)
  have gf: "filter is_ssr_native g = []" "filter is_build_rep_set g = []"
    by (simp_all add: g)
  have "min_length a' = Some 12" by (rule s)
  moreover have "filter is_ssr_native (fst (main gen brs files cl)) = [Call_ssr_native a' (Some 12) None]"
    by (simp add: main_accepted[OF assms(1) c] gf reports_filters d call_ssr_native_def
        then_do_Inr fst_then_do snd_then_do ssr_native_length[OF s] split: sum.splits)
  moreover have "filter is_build_rep_set (fst (main gen brs files cl)) =
               [Call_build_rep_set (repeats a') (Length_cutoff (Some 12))]"
    by (simp add: main_accepted[OF assms(1) c] gf reports_filters d call_ssr_native_def
        then_do_Inr fst_then_do snd_then_do ssr_native_length[OF s] split: sum.splits)
  moreover have "Stderr (Using_length_cutoff 12) \<in> set (fst (main gen brs files cl))"
    by (simp add: main_accepted[OF assms(1) c] d call_ssr_native_def
        then_do_Inr fst_then_do snd_then_do ssr_native_length[OF s] split: sum.splits)
  ultimately show ?thesis by blast
qed

theorem main_default_length_cutoff_12_witness:
  "getArgs sample_cmdline = Inr sample_args
   \<and> opt_min_length sample_cmdline = None \<and> opt_min_units sample_cmdline = None
   \<and> (\<exists>a'. min_length a' = Some 12
         \<and> filter is_ssr_native
             (fst (main sample_generate_repeats sample_build_rep_set sample_files sample_cmdline)) =
             [Call_ssr_native a' (Some 12) None]
         \<and> filter is_build_rep_set
             (fst (main sample_generate_repeats sample_build_rep_set sample_files sample_cmdline)) =
             [Call_build_rep_set (repeats a') (Length_cutoff (Some 12))]
         \<and> Stderr (Using_length_cutoff 12)
             \<in> set (fst (main sample_generate_repeats sample_build_rep_set sample_files sample_cmdline)))"
proof -
  have h2: "opt_min_length sample_cmdline = None" and h3: "opt_min_units sample_cmdline = None"
    by (simp_all add: sample_cmdline_def)
  show ?thesis
    using main_default_length_cutoff_12[where gen = sample_generate_repeats and brs = sample_build_rep_set
          and files = sample_files, OF sample_accepted h2 h3]
      sample_accepted h2 h3 by blast
qed

text \<open>
  What does hold for every units file: a missing file, and a file with a line whose first
  two fields are not both integers, end the run before \<^verbatim>\<open>ssr_native\<close> is invoked and before
  any scan, the former in \<^verbatim>\<open>sys.exit\<close> with the message for a missing file, the latter in
  \<^verbatim>\<open>sys.exit\<close> with the message for an invalid format or in an uncaught \<^verbatim>\<open>IndexError\<close>.
\<close>

lemma units_file_failures_precede_ssr_native:
  fixes a :: "'g args" and gen :: "int \<Rightarrow> int \<Rightarrow> bool \<Rightarrow> 'g"
    and brs :: "'g repeats option \<Rightarrow> cutoff \<Rightarrow> 'i"
  assumes "getArgs cl = Inr a" and "opt_min_units cl = Some u" and "u \<noteq> []"
    and "py_int u = None"
  shows "(files u = File_not_found \<longrightarrow>
            snd (main gen brs files cl) = Inl (System_exit units_not_found_msg)
          \<and> \<not> list_ex is_ssr_native (fst (main gen brs files cl))
          \<and> \<not> list_ex is_scan (fst (main gen brs files cl)))
       \<and> (\<forall>ls. files u = Opened ls \<and> list_ex not_both_integers ls \<longrightarrow>
            (snd (main gen brs files cl) = Inl (System_exit invalid_units_msg)
             \<or> (snd (main gen brs files cl) = Inl Index_error \<and> list_ex short_line ls))
          \<and> \<not> list_ex is_ssr_native (fst (main gen brs files cl))
          \<and> \<not> list_ex is_scan (fst (main gen brs files cl)))"
proof -
  obtain g :: "('g, 'i) event list" and a1 where
    g: "\<not> list_ex is_scan g" "\<not> list_ex is_ssr_native g"
    and f: "fst (main gen brs files cl) =
           g @ (case snd (file_units brs files a1 u) of
                  Inl e \<Rightarrow> fst (file_units brs files a1 u)
                | Inr a2 \<Rightarrow> fst (file_units brs files a1 u) @ fst (reports a2))"
    and r: "snd (main gen brs files cl) =
           (case snd (file_units brs files a1 u) of Inl e \<Rightarrow> Inl e | Inr a2 \<Rightarrow> Inr ())"
    using main_units_file[OF assms, of gen brs files] by blast
  have missing: "snd (main gen brs files cl) = Inl (System_exit units_not_found_msg)
          \<and> \<not> list_ex is_ssr_native (fst (main gen brs files cl))
          \<and> \<not> list_ex is_scan (fst (main gen brs files cl))" if "files u = File_not_found"
    using that g by (simp add: f r file_units_events file_units_result)
  have malformed: "(snd (main gen brs files cl) = Inl (System_exit invalid_units_msg)
             \<or> (snd (main gen brs files cl) = Inl Index_error \<and> list_ex short_line ls))
          \<and> \<not> list_ex is_ssr_native (fst (main gen brs files cl))
          \<and> \<not> list_ex is_scan (fst (main gen brs files cl))"
    if ls: "files u = Opened ls" and bad: "list_ex not_both_integers ls" for ls
  proof -
    from read_units_malformed[OF bad, of "[]"]
    obtain e where e: "snd (read_units [] ls :: ('g, 'i, unit_table) run) = Inl e"
      and k: "e = System_exit invalid_units_msg \<or> (e = Index_error \<and> list_ex short_line ls)"
      by blast
    have "snd (file_units brs files a1 u) = Inl e"
      by (simp add: file_units_result ls e)
    moreover have "fst (file_units brs files a1 u) = fst (read_units [] ls :: ('g, 'i, unit_table) run)"
      by (simp add: file_units_events ls e)
    ultimately show ?thesis using k g by (auto simp: f r read_units_filters)
  qed
  show ?thesis using missing malformed by blast
qed

text \<open>
  The exit for an invalid format is taken when no line before the offending one raises
  \<^verbatim>\<open>IndexError\<close>.
\<close>

lemma read_units_exits:
  "list_all (\<lambda>x. units_line x \<noteq> Inl Index_error) pre \<Longrightarrow> not_both_integers l \<Longrightarrow>
     snd (read_units uc (pre @ l # post) :: ('g, 'i, unit_table) run) =
       Inl (System_exit invalid_units_msg)"
proof (induction pre arbitrary: uc)
  case Nil
  then show ?case by (simp add: not_both_integers_exits)
next
  case (Cons line rest)
  show ?case
  proof (cases "units_line line")
    case (Inl e)
    then have "e = System_exit invalid_units_msg"
      using units_line_error[OF Inl] Cons.prems(1) by auto
    then show ?thesis using Inl by simp
  next
    case (Inr kv)
    obtain k v where kv: "units_line line = Inr (k, v)" using Inr by (cases kv) simp
    show ?thesis using Cons.IH[of "AList.update k v uc"] Cons.prems
      by (simp add: read_units_entry[OF kv] del: read_units.simps)
  qed
qed

lemma malformed_units_line_exits:
  fixes a :: "'g args" and gen :: "int \<Rightarrow> int \<Rightarrow> bool \<Rightarrow> 'g"
    and brs :: "'g repeats option \<Rightarrow> cutoff \<Rightarrow> 'i"
  assumes "getArgs cl = Inr a" and "opt_min_units cl = Some u" and "u \<noteq> []"
    and "py_int u = None"
    and "files u = Opened (pre @ l # post)"
    and "list_all (\<lambda>x. units_line x \<noteq> Inl Index_error) pre"
    and "not_both_integers l"
  shows "snd (main gen brs files cl) = Inl (System_exit invalid_units_msg)"
proof -
  obtain g :: "('g, 'i) event list" and a1 where
    r: "snd (main gen brs files cl) =
           (case snd (file_units brs files a1 u) of Inl e \<Rightarrow> Inl e | Inr a2 \<Rightarrow> Inr ())"
    using main_units_file[OF assms(1-4), of gen brs files] by blast
  have "snd (read_units [] (pre @ l # post) :: ('g, 'i, unit_table) run) =
      Inl (System_exit invalid_units_msg)"
    by (rule read_units_exits[OF assms(6,7)])
  then have "snd (file_units brs files a1 u) = Inl (System_exit invalid_units_msg)"
    by (simp add: file_units_result assms(5) del: read_units.simps)
  then show ?thesis by (simp add: r)
qed

text \<open>
  Claim C4: for every units file, a line whose first two whitespace-separated fields are
  not both integers causes a fatal configuration error (process exit with a diagnostic)
  before any scanning begins, and so does a units file that does not exist; in both cases
  \<^verbatim>\<open>ssr_native\<close> is never invoked. The code attempts this with its handler for
  \<^verbatim>\<open>ValueError\<close> and misses the lines with fewer than two fields: for the units file of a
  blank line followed by the line \<^verbatim>\<open>2 six\<close>, whose second field is not an integer, the run
  does not leave through the exit for an invalid format; it ends at the blank line in an
  uncaught \<^verbatim>\<open>IndexError\<close> (\<^verbatim>\<open>ssr_native\<close> is not invoked).
\<close>

theorem blank_line_before_malformed_line_raises_index_error:
  "sample_files ''blank_first_units.txt'' = Opened [[], ''2 six'']
   \<and> not_both_integers ''2 six''
   \<and> snd (main sample_generate_repeats sample_build_rep_set sample_files
          (sample_cmdline\<lparr>opt_min_units := Some ''blank_first_units.txt''\<rparr>)) = Inl Index_error
   \<and> \<not> list_ex is_ssr_native (fst (main sample_generate_repeats sample_build_rep_set sample_files
          (sample_cmdline\<lparr>opt_min_units := Some ''blank_first_units.txt''\<rparr>)))"
  by code_simp

text \<open>
  The handler for a missing file catches \<^verbatim>\<open>FileNotFoundError\<close> only: a path that is absent
  because it runs through a plain file ends the run in an uncaught \<^verbatim>\<open>OSError\<close>.
\<close>

lemma path_through_plain_file_raises_os_error:
  "sample_files ''units.txt/x'' = Other_os_error
   \<and> snd (main sample_generate_repeats sample_build_rep_set sample_files
          (sample_cmdline\<lparr>opt_min_units := Some ''units.txt/x''\<rparr>)) = Inl Os_error"
  by code_simp

text \<open>
  Claim C5: whenever a unit threshold of 1 is configured for some motif size, by an entry
  of the units file or by the scalar \<^verbatim>\<open>--min-units 1\<close>, a warning is written to stderr.
  The code warns in the loop over the units file only (\<open>units_file_entry_of_1_warns\<close>).
  For the command line \<^verbatim>\<open>-i genome.fa -u 1\<close> the unit cutoff \<^verbatim>\<open>{0: 1}\<close> reaches
  \<^verbatim>\<open>build_rep_set\<close> and no warning is among the events of the run.
\<close>

theorem scalar_min_units_1_emits_no_warning:
  "\<not> list_ex is_warning (fst (main sample_generate_repeats sample_build_rep_set sample_files
          (sample_cmdline\<lparr>opt_min_units := Some ''1''\<rparr>)))
   \<and> filter is_build_rep_set (fst (main sample_generate_repeats sample_build_rep_set sample_files
          (sample_cmdline\<lparr>opt_min_units := Some ''1''\<rparr>))) =
       [Call_build_rep_set (Some (Generated (1, 6, False))) (Unit_cutoff [(0, 1)])]"
  by code_simp

text \<open>The events of \<^verbatim>\<open>main\<close> that concern the repeats are those of the dispatch.\<close>

lemma ssr_native_namespaces_append:
  "ssr_native_namespaces (xs @ ys) = ssr_native_namespaces xs @ ssr_native_namespaces ys"
  by (induction xs rule: ssr_native_namespaces.induct) simp_all

lemma ssr_native_namespaces_none:
  "filter is_ssr_native xs = [] \<Longrightarrow> ssr_native_namespaces xs = []"
  by (induction xs rule: ssr_native_namespaces.induct) (simp_all split: if_splits)

lemma main_repeats_events:
  fixes a :: "'g args" and gen :: "int \<Rightarrow> int \<Rightarrow> bool \<Rightarrow> 'g"
    and brs :: "'g repeats option \<Rightarrow> cutoff \<Rightarrow> 'i"
  assumes "getArgs cl = Inr a" and "catalog gen a = (g, Inr a1)"
    and "g = (if repeats a = None
              then [Call_generate_repeats (min_motif_size a) (max_motif_size a) (include_atomic a)]
              else [])"
  shows "build_rep_set_repeats (fst (main gen brs files cl)) =
           build_rep_set_repeats (fst (dispatch brs files a1))"
    and "ssr_native_namespaces (fst (main gen brs files cl)) =
           ssr_native_namespaces (fst (dispatch brs files a1))"
    and "filter is_generate_repeats (fst (main gen brs files cl)) = g"
  by (simp_all add: main_accepted[OF assms(1,2)] build_rep_set_repeats_append
      ssr_native_namespaces_append ssr_native_namespaces_none reports_filters
      dispatch_no_generate assms(3) split: sum.splits)

lemma update_not_Nil: "AList.update k v al \<noteq> []"
  by (cases al) simp_all

lemma read_units_entries:
  "list_all is_entry ls \<Longrightarrow>
     \<exists>t. snd (read_units uc ls :: ('g, 'i, unit_table) run) = Inr t
        \<and> (ls \<noteq> [] \<or> uc \<noteq> [] \<longrightarrow> t \<noteq> [])"
proof (induction ls arbitrary: uc)
  case Nil
  then show ?case by simp
next
  case (Cons line rest)
  then obtain k v where kv: "units_line line = Inr (k, v)" by (auto simp: is_entry_iff)
  obtain t where "snd (read_units (AList.update k v uc) rest :: ('g, 'i, unit_table) run) = Inr t"
    and "t \<noteq> []"
    using Cons.IH[of "AList.update k v uc"] Cons.prems update_not_Nil[of k v uc] by auto
  then show ?case by (simp add: read_units_entry[OF kv] del: read_units.simps)
qed

lemma py_int_Nil: "py_int [] = None"
  by (simp add: py_int_def)

lemma call_ssr_native_length_repeats:
  assumes "l \<noteq> 0" and "min_length a = Some l'"
  shows "build_rep_set_repeats
           (fst (then_do (call_ssr_native brs a (Some l) None) (\<lambda>_. ([], Inr b)))) = [repeats a]"
proof -
  have t: "truthy_length (Some l)" using assms(1) by (simp add: truthy_length_def truthy_int_def)
  show ?thesis
    by (simp add: fst_then_do call_ssr_native_events ssr_native_length[OF t assms(2)]
        split: sum.splits)
qed

lemma dispatch_length_repeats:
  fixes a :: "'g args" and brs :: "'g repeats option \<Rightarrow> cutoff \<Rightarrow> 'i"
  assumes "min_units a = Units_none" and "min_length a \<noteq> Some 0"
  shows "build_rep_set_repeats (fst (dispatch brs files a)) = [repeats a]"
proof (cases "min_length a")
  case None
  have d: "dispatch brs files a =
      then_do (call_ssr_native brs (a\<lparr>min_length := Some 12\<rparr>) (Some 12) None)
        (\<lambda>_. ([], Inr (a\<lparr>min_length := Some 12\<rparr>)))"
    by (simp add: dispatch_def None assms(1) truthy_length_def truthy_units_def Let_def)
  show ?thesis unfolding d
    using call_ssr_native_length_repeats[of 12 "a\<lparr>min_length := Some 12\<rparr>" 12 brs]
    by simp
next
  case (Some l)
  then have l: "l \<noteq> 0" using assms(2) by simp
  have d: "dispatch brs files a =
      then_do (call_ssr_native brs a (Some l) None) (\<lambda>_. ([], Inr a))"
    using l by (simp add: dispatch_def Some truthy_length_def truthy_int_def)
  show ?thesis unfolding d by (rule call_ssr_native_length_repeats[OF l Some])
qed

lemma dispatch_scalar_repeats:
  fixes a :: "'g args" and brs :: "'g repeats option \<Rightarrow> cutoff \<Rightarrow> 'i"
  assumes "min_length a = None" and "min_units a = Units_str u" and "py_int u = Some n"
  shows "build_rep_set_repeats (fst (dispatch brs files a)) = [repeats a]"
proof -
  have "u \<noteq> []" using assms(3) py_int_Nil by auto
  then have d: "dispatch brs files a = scalar_units brs a n"
    by (simp add: dispatch_def units_branch_def assms truthy_length_def truthy_units_def)
  have t: "[(0, n)] \<noteq> ([] :: unit_table)" by simp
  show ?thesis unfolding d by (simp add: scalar_units_events ssr_native_units[OF t])
qed

lemma dispatch_file_repeats:
  fixes a :: "'g args" and brs :: "'g repeats option \<Rightarrow> cutoff \<Rightarrow> 'i"
  assumes "min_length a = None" and "min_units a = Units_str u" and "u \<noteq> []"
    and "py_int u = None" and "files u = Opened ls" and "ls \<noteq> []" and "list_all is_entry ls"
  shows "build_rep_set_repeats (fst (dispatch brs files a)) = [repeats a]"
proof -
  have d: "dispatch brs files a = file_units brs files a u"
    by (simp add: dispatch_def units_branch_def assms truthy_length_def truthy_units_def)
  obtain t where t: "snd (read_units [] ls :: ('g, 'i, unit_table) run) = Inr t" and n: "t \<noteq> []"
    using read_units_entries[OF assms(7), of "[]"] assms(6) by auto
  show ?thesis unfolding d
    by (simp add: file_units_events assms(5) t read_units_filters build_rep_set_repeats_append
        ssr_native_units[OF n] del: read_units.simps)
qed

lemma dispatch_namespaces:
  fixes a :: "'g args" and brs :: "'g repeats option \<Rightarrow> cutoff \<Rightarrow> 'i"
  shows "list_all (\<lambda>a'. repeats a' = repeats a) (ssr_native_namespaces (fst (dispatch brs files a)))"
proof (cases rule: dispatch_cases[where a=a and brs=brs and files=files])
  case (by_length l)
  then show ?thesis
    by (simp add: fst_then_do call_ssr_native_events ssr_native_namespaces_none
        ssr_native_filters split: sum.splits)
next
  case (by_scalar n)
  then show ?thesis
    by (simp add: scalar_units_events ssr_native_namespaces_none ssr_native_filters)
next
  case (by_file path)
  then show ?thesis
    by (simp add: file_units_events ssr_native_namespaces_none ssr_native_filters
        read_units_filters ssr_native_namespaces_append split: opened.splits sum.splits)
next
  case by_default
  then show ?thesis
    by (simp add: fst_then_do call_ssr_native_events ssr_native_namespaces_none
        ssr_native_filters split: sum.splits)
next
  case no_branch
  then show ?thesis by simp
qed

text \<open>
  Claim C6: \<^verbatim>\<open>generate_repeats\<close> is invoked if and only if no repeats file is supplied:
  without \<^verbatim>\<open>-rep\<close>, \<^verbatim>\<open>main\<close> calls it exactly once, with
  \<^verbatim>\<open>(min_motif_size, max_motif_size, include_atomic)\<close>; with \<^verbatim>\<open>-rep\<close> it is never called and
  the supplied list is used instead. \<open>R\<close> is the list in use: the supplied file, or else the
  value \<^verbatim>\<open>generate_repeats\<close> returned. Every invocation of \<^verbatim>\<open>ssr_native\<close> is given a
  namespace whose \<^verbatim>\<open>repeats\<close> is \<open>R\<close>, and every call of \<^verbatim>\<open>build_rep_set\<close> is given \<open>R\<close>. The
  list is indeed used: \<^verbatim>\<open>build_rep_set\<close> is called exactly once, with \<open>R\<close>, when no
  \<^verbatim>\<open>--min-units\<close> is given and \<^verbatim>\<open>--min-length\<close> is not 0, when \<^verbatim>\<open>--min-units\<close> is an integer,
  and when it names a units file that is not empty and has only entries.
\<close>

theorem generate_repeats_iff_no_repeats_file:
  fixes a :: "'g args" and gen :: "int \<Rightarrow> int \<Rightarrow> bool \<Rightarrow> 'g"
    and brs :: "'g repeats option \<Rightarrow> cutoff \<Rightarrow> 'i"
  assumes "getArgs cl = Inr a"
    and "R = (case opt_repeats cl of
                None \<Rightarrow> Generated (gen (min_motif_size a) (max_motif_size a) (include_atomic a))
              | Some p \<Rightarrow> Repeats_file p)"
  shows "filter is_generate_repeats (fst (main gen brs files cl)) =
           (if opt_repeats cl = None
            then [Call_generate_repeats (min_motif_size a) (max_motif_size a) (include_atomic a)]
            else [])
       \<and> list_all (\<lambda>a'. repeats a' = Some R) (ssr_native_namespaces (fst (main gen brs files cl)))
       \<and> list_all (\<lambda>r. r = Some R) (build_rep_set_repeats (fst (main gen brs files cl)))
       \<and> (opt_min_units cl = None \<and> opt_min_length cl \<noteq> Some 0 \<longrightarrow>
            build_rep_set_repeats (fst (main gen brs files cl)) = [Some R])
       \<and> (\<forall>u n. opt_min_units cl = Some u \<and> py_int u = Some n \<longrightarrow>
            build_rep_set_repeats (fst (main gen brs files cl)) = [Some R])
       \<and> (\<forall>u ls. opt_min_units cl = Some u \<and> u \<noteq> [] \<and> py_int u = None
              \<and> files u = Opened ls \<and> ls \<noteq> [] \<and> list_all is_entry ls \<longrightarrow>
            build_rep_set_repeats (fst (main gen brs files cl)) = [Some R])"
proof -
  obtain g :: "('g, 'i) event list" and a1 where c: "catalog gen a = (g, Inr a1)"
    and g: "g = (if repeats a = None
              then [Call_generate_repeats (min_motif_size a) (max_motif_size a) (include_atomic a)]
              else [])"
    and a1: "a1 = (if repeats a = None
               then a\<lparr>repeats := Some (Generated
                 (gen (min_motif_size a) (max_motif_size a) (include_atomic a)))\<rparr>
               else a)"
    by (rule catalog_result)
  note ev = main_repeats_events[OF assms(1) c g, of brs files]
  have rep: "repeats a = map_option Repeats_file (opt_repeats cl)"
    by (rule getArgs_accepts(3)[OF assms(1)])
  have R: "repeats a1 = Some R"
    by (cases "opt_repeats cl") (simp_all add: a1 rep assms(2))
  have l1: "min_length a1 = opt_min_length cl"
    and u1: "min_units a1 = (case opt_min_units cl of None \<Rightarrow> Units_none | Some u \<Rightarrow> Units_str u)"
    using getArgs_accepts(1,2)[OF assms(1)] by (simp_all add: a1)
  have excl: "opt_min_length cl = None \<or> opt_min_units cl = None"
    by (rule getArgs_accepts(4)[OF assms(1)])
  have "filter is_generate_repeats (fst (main gen brs files cl)) =
           (if opt_repeats cl = None
            then [Call_generate_repeats (min_motif_size a) (max_motif_size a) (include_atomic a)]
            else [])"
    by (simp add: ev(3) g rep)
  moreover have "list_all (\<lambda>a'. repeats a' = Some R)
      (ssr_native_namespaces (fst (main gen brs files cl)))"
    using dispatch_namespaces[of a1 brs files] by (simp add: ev(2) R)
  moreover have "list_all (\<lambda>r. r = Some R) (build_rep_set_repeats (fst (main gen brs files cl)))"
    using dispatch_repeats[of a1 brs files] by (simp add: ev(1) R)
  moreover have "build_rep_set_repeats (fst (main gen brs files cl)) = [Some R]"
    if "opt_min_units cl = None \<and> opt_min_length cl \<noteq> Some 0"
    using that dispatch_length_repeats[of a1 brs files] by (simp add: ev(1) R l1 u1)
  moreover have "build_rep_set_repeats (fst (main gen brs files cl)) = [Some R]"
    if "opt_min_units cl = Some u \<and> py_int u = Some n" for u n
    using that excl dispatch_scalar_repeats[of a1 u n brs files] by (simp add: ev(1) R l1 u1)
  moreover have "build_rep_set_repeats (fst (main gen brs files cl)) = [Some R]"
    if "opt_min_units cl = Some u \<and> u \<noteq> [] \<and> py_int u = None
              \<and> files u = Opened ls \<and> ls \<noteq> [] \<and> list_all is_entry ls" for u ls
    using that excl dispatch_file_repeats[of a1 u files ls brs] by (simp add: ev(1) R l1 u1)
  ultimately show ?thesis by blast
qed

theorem generate_repeats_iff_no_repeats_file_witness:
  "getArgs sample_cmdline = Inr sample_args \<and> opt_repeats sample_cmdline = None
   \<and> filter is_generate_repeats
       (fst (main sample_generate_repeats sample_build_rep_set sample_files sample_cmdline)) =
       [Call_generate_repeats 1 6 False]
   \<and> build_rep_set_repeats
       (fst (main sample_generate_repeats sample_build_rep_set sample_files sample_cmdline)) =
       [Some (Generated (sample_generate_repeats 1 6 False))]
   \<and> list_all (\<lambda>a'. repeats a' = Some (Generated (sample_generate_repeats 1 6 False)))
       (ssr_native_namespaces
          (fst (main sample_generate_repeats sample_build_rep_set sample_files sample_cmdline)))
   \<and> getArgs (sample_cmdline\<lparr>opt_repeats := Some ''repeats.txt'', opt_min_motif_size := Some 0,
         opt_max_motif_size := Some 0\<rparr>) =
       Inr (sample_args\<lparr>repeats := Some (Repeats_file ''repeats.txt''), min_motif_size := 0,
         max_motif_size := 0\<rparr>)
   \<and> filter is_generate_repeats
       (fst (main sample_generate_repeats sample_build_rep_set sample_files
          (sample_cmdline\<lparr>opt_repeats := Some ''repeats.txt'', opt_min_motif_size := Some 0,
             opt_max_motif_size := Some 0\<rparr>))) = []
   \<and> build_rep_set_repeats
       (fst (main sample_generate_repeats sample_build_rep_set sample_files
          (sample_cmdline\<lparr>opt_repeats := Some ''repeats.txt'', opt_min_motif_size := Some 0,
             opt_max_motif_size := Some 0\<rparr>))) = [Some (Repeats_file ''repeats.txt'')]
   \<and> list_all (\<lambda>a'. repeats a' = Some (Repeats_file ''repeats.txt''))
       (ssr_native_namespaces
          (fst (main sample_generate_repeats sample_build_rep_set sample_files
             (sample_cmdline\<lparr>opt_repeats := Some ''repeats.txt'', opt_min_motif_size := Some 0,
                opt_max_motif_size := Some 0\<rparr>))))"
proof -
  let ?cl = "sample_cmdline\<lparr>opt_repeats := Some ''repeats.txt'', opt_min_motif_size := Some 0,
         opt_max_motif_size := Some 0\<rparr>"
  have n: "opt_repeats sample_cmdline = None" "opt_min_units sample_cmdline = None"
      "opt_min_length sample_cmdline \<noteq> Some 0"
    and f: "min_motif_size sample_args = 1" "max_motif_size sample_args = 6"
      "include_atomic sample_args = False"
    by (simp_all add: sample_cmdline_def sample_args_def)
  have R1: "Generated (sample_generate_repeats 1 6 False) =
      (case opt_repeats sample_cmdline of
         None \<Rightarrow> Generated (sample_generate_repeats (min_motif_size sample_args)
           (max_motif_size sample_args) (include_atomic sample_args))
       | Some p \<Rightarrow> Repeats_file p)"
    by (simp add: n f)
  have h: "getArgs ?cl =
       Inr (sample_args\<lparr>repeats := Some (Repeats_file ''repeats.txt''), min_motif_size := 0,
         max_motif_size := 0\<rparr>)"
    by (simp add: getArgs_def parse_args_def sample_cmdline_def sample_args_def py_or_def
        truthy_int_def)
  have s: "opt_repeats ?cl = Some ''repeats.txt''" "opt_min_units ?cl = None"
      "opt_min_length ?cl \<noteq> Some 0"
    by (simp_all add: sample_cmdline_def)
  have R2: "Repeats_file ''repeats.txt'' =
      (case opt_repeats ?cl of
         None \<Rightarrow> Generated (sample_generate_repeats
           (min_motif_size (sample_args\<lparr>repeats := Some (Repeats_file ''repeats.txt''),
              min_motif_size := 0, max_motif_size := 0\<rparr>))
           (max_motif_size (sample_args\<lparr>repeats := Some (Repeats_file ''repeats.txt''),
              min_motif_size := 0, max_motif_size := 0\<rparr>))
           (include_atomic (sample_args\<lparr>repeats := Some (Repeats_file ''repeats.txt''),
              min_motif_size := 0, max_motif_size := 0\<rparr>)))
       | Some p \<Rightarrow> Repeats_file p)"
    by (simp add: s)
  have without: "filter is_generate_repeats
       (fst (main sample_generate_repeats sample_build_rep_set sample_files sample_cmdline)) =
       [Call_generate_repeats 1 6 False]
   \<and> build_rep_set_repeats
       (fst (main sample_generate_repeats sample_build_rep_set sample_files sample_cmdline)) =
       [Some (Generated (sample_generate_repeats 1 6 False))]
   \<and> list_all (\<lambda>a'. repeats a' = Some (Generated (sample_generate_repeats 1 6 False)))
       (ssr_native_namespaces
          (fst (main sample_generate_repeats sample_build_rep_set sample_files sample_cmdline)))"
    using generate_repeats_iff_no_repeats_file[where gen = sample_generate_repeats
          and brs = sample_build_rep_set and files = sample_files, OF sample_accepted R1] n f
    by simp
  have with_file: "filter is_generate_repeats
       (fst (main sample_generate_repeats sample_build_rep_set sample_files ?cl)) = []
   \<and> build_rep_set_repeats
       (fst (main sample_generate_repeats sample_build_rep_set sample_files ?cl)) =
       [Some (Repeats_file ''repeats.txt'')]
   \<and> list_all (\<lambda>a'. repeats a' = Some (Repeats_file ''repeats.txt''))
       (ssr_native_namespaces
          (fst (main sample_generate_repeats sample_build_rep_set sample_files ?cl)))"
    using generate_repeats_iff_no_repeats_file[where gen = sample_generate_repeats
          and brs = sample_build_rep_set and files = sample_files, OF h R2] s
    by simp
  show ?thesis using without with_file sample_accepted n(1) h by simp
qed

text \<open>
  Claim C8: for every configuration with \<^verbatim>\<open>--min-length 0\<close> and no \<^verbatim>\<open>--min-units\<close>,
  \<^verbatim>\<open>main\<close> runs none of its three cutoff branches: \<^verbatim>\<open>ssr_native\<close> is never invoked, no
  repeat set is built, nothing is scanned, nothing is written to stderr, and \<^verbatim>\<open>main\<close>
  returns normally.
\<close>

theorem min_length_zero_runs_no_branch:
  fixes a :: "'g args" and gen :: "int \<Rightarrow> int \<Rightarrow> bool \<Rightarrow> 'g"
    and brs :: "'g repeats option \<Rightarrow> cutoff \<Rightarrow> 'i"
  assumes "getArgs cl = Inr a" and "opt_min_length cl = Some 0" and "opt_min_units cl = None"
  shows "\<not> list_ex is_ssr_native (fst (main gen brs files cl))
       \<and> \<not> list_ex is_build_rep_set (fst (main gen brs files cl))
       \<and> \<not> list_ex is_scan (fst (main gen brs files cl))
       \<and> \<not> list_ex is_stderr (fst (main gen brs files cl))
       \<and> snd (main gen brs files cl) = Inr ()"
proof -
  obtain g :: "('g, 'i) event list" and a1 where c: "catalog gen a = (g, Inr a1)"
    and g: "g = (if repeats a = None
              then [Call_generate_repeats (min_motif_size a) (max_motif_size a) (include_atomic a)]
              else [])"
    and a1: "a1 = (if repeats a = None
               then a\<lparr>repeats := Some (Generated
                 (gen (min_motif_size a) (max_motif_size a) (include_atomic a)))\<rparr>
               else a)"
    by (rule catalog_result)
  have "min_length a = Some 0" and "min_units a = Units_none"
    using getArgs_accepts(1,2)[OF assms(1)] assms(2,3) by simp_all
  then have l1: "min_length a1 = Some 0" and u1: "min_units a1 = Units_none"
    by (simp_all add: a1)
  have d: "dispatch brs files a1 = ([], Inr a1)"
    by (simp add: dispatch_def l1 u1 truthy_length_def truthy_int_def truthy_units_def)
  show ?thesis
    by (simp add: main_accepted[OF assms(1) c] d reports_filters g)
qed

theorem min_length_zero_runs_no_branch_witness:
  "getArgs (sample_cmdline\<lparr>opt_min_length := Some 0\<rparr>) = Inr (sample_args\<lparr>min_length := Some 0\<rparr>)
   \<and> opt_min_length (sample_cmdline\<lparr>opt_min_length := Some 0\<rparr>) = Some 0
   \<and> opt_min_units (sample_cmdline\<lparr>opt_min_length := Some 0\<rparr>) = None
   \<and> \<not> list_ex is_ssr_native (fst (main sample_generate_repeats sample_build_rep_set sample_files
         (sample_cmdline\<lparr>opt_min_length := Some 0\<rparr>)))
   \<and> \<not> list_ex is_build_rep_set (fst (main sample_generate_repeats sample_build_rep_set sample_files
         (sample_cmdline\<lparr>opt_min_length := Some 0\<rparr>)))
   \<and> \<not> list_ex is_scan (fst (main sample_generate_repeats sample_build_rep_set sample_files
         (sample_cmdline\<lparr>opt_min_length := Some 0\<rparr>)))
   \<and> \<not> list_ex is_stderr (fst (main sample_generate_repeats sample_build_rep_set sample_files
         (sample_cmdline\<lparr>opt_min_length := Some 0\<rparr>)))
   \<and> snd (main sample_generate_repeats sample_build_rep_set sample_files
         (sample_cmdline\<lparr>opt_min_length := Some 0\<rparr>)) = Inr ()"
proof -
  have h1: "getArgs (sample_cmdline\<lparr>opt_min_length := Some 0\<rparr>) =
      Inr (sample_args\<lparr>min_length := Some 0\<rparr>)"
    by (simp add: getArgs_def parse_args_def sample_cmdline_def sample_args_def py_or_def
        truthy_int_def)
  have h2: "opt_min_length (sample_cmdline\<lparr>opt_min_length := Some 0\<rparr>) = Some 0"
    and h3: "opt_min_units (sample_cmdline\<lparr>opt_min_length := Some 0\<rparr>) = None"
    by (simp_all add: sample_cmdline_def)
  show ?thesis
    using min_length_zero_runs_no_branch[where gen = sample_generate_repeats and brs = sample_build_rep_set
          and files = sample_files, OF h1 h2 h3] h1 h2 h3
    by blast
qed

text \<open>
  Claim C9: every units file containing a line with fewer than two fields makes \<^verbatim>\<open>main\<close>
  raise an uncaught \<^verbatim>\<open>IndexError\<close> instead of leaving through the "Invalid file format"
  exit. As stated the claim fails: the line \<^verbatim>\<open>abc\<close> has one field, \<^verbatim>\<open>int('abc')\<close> raises
  \<^verbatim>\<open>ValueError\<close> before \<^verbatim>\<open>L[1]\<close> is read, and the run leaves through that very exit.
\<close>

theorem one_word_units_line_exits_invalid_format:
  "sample_files ''word_units.txt'' = Opened [''abc''] \<and> short_line ''abc''
   \<and> snd (main sample_generate_repeats sample_build_rep_set sample_files
          (sample_cmdline\<lparr>opt_min_units := Some ''word_units.txt''\<rparr>)) =
       Inl (System_exit invalid_units_msg)
   \<and> snd (main sample_generate_repeats sample_build_rep_set sample_files
          (sample_cmdline\<lparr>opt_min_units := Some ''word_units.txt''\<rparr>)) \<noteq> Inl Index_error"
  by code_simp

text \<open>
  Claim C9, amended: when the first line of the units file that does not start with two
  integer fields is a line with no field, or with exactly one field that is an integer,
  \<^verbatim>\<open>main\<close> raises an uncaught \<^verbatim>\<open>IndexError\<close>, and \<^verbatim>\<open>ssr_native\<close> is never invoked.
\<close>

theorem short_units_line_index_error:
  fixes a :: "'g args" and gen :: "int \<Rightarrow> int \<Rightarrow> bool \<Rightarrow> 'g"
    and brs :: "'g repeats option \<Rightarrow> cutoff \<Rightarrow> 'i"
  assumes "getArgs cl = Inr a" and "opt_min_units cl = Some u" and "u \<noteq> []"
    and "py_int u = None"
    and "files u = Opened (pre @ l # post)"
    and "list_all is_entry pre"
    and "fields l = [] \<or> (\<exists>f. fields l = [f] \<and> py_int f \<noteq> None)"
  shows "snd (main gen brs files cl) = Inl Index_error
       \<and> \<not> list_ex is_ssr_native (fst (main gen brs files cl))"
proof -
  obtain g :: "('g, 'i) event list" and a1 where
    g: "\<not> list_ex is_scan g" "\<not> list_ex is_ssr_native g"
    and f: "fst (main gen brs files cl) =
           g @ (case snd (file_units brs files a1 u) of
                  Inl e \<Rightarrow> fst (file_units brs files a1 u)
                | Inr a2 \<Rightarrow> fst (file_units brs files a1 u) @ fst (reports a2))"
    and r: "snd (main gen brs files cl) =
           (case snd (file_units brs files a1 u) of Inl e \<Rightarrow> Inl e | Inr a2 \<Rightarrow> Inr ())"
    using main_units_file[OF assms(1-4), of gen brs files] by blast
  have e: "snd (read_units [] (pre @ l # post) :: ('g, 'i, unit_table) run) = Inl Index_error"
    using read_units_first_error[OF assms(6) short_line_index_error[OF assms(7)]] .
  have "snd (file_units brs files a1 u) = Inl Index_error"
    by (simp add: file_units_result assms(5) e del: read_units.simps)
  moreover have "fst (file_units brs files a1 u) =
      fst (read_units [] (pre @ l # post) :: ('g, 'i, unit_table) run)"
    by (simp add: file_units_events assms(5) e del: read_units.simps)
  ultimately show ?thesis using g by (simp add: f r read_units_filters del: read_units.simps)
qed

theorem short_units_line_index_error_witness:
  "getArgs (sample_cmdline\<lparr>opt_min_units := Some ''blank_units.txt''\<rparr>) =
       Inr (sample_args\<lparr>min_units := Units_str ''blank_units.txt''\<rparr>)
   \<and> py_int ''blank_units.txt'' = None
   \<and> sample_files ''blank_units.txt'' = Opened ([''1 12''] @ [] # [''2 6''])
   \<and> list_all is_entry [''1 12'']
   \<and> fields [] = []
   \<and> snd (main sample_generate_repeats sample_build_rep_set sample_files
          (sample_cmdline\<lparr>opt_min_units := Some ''blank_units.txt''\<rparr>)) = Inl Index_error
   \<and> \<not> list_ex is_ssr_native (fst (main sample_generate_repeats sample_build_rep_set sample_files
          (sample_cmdline\<lparr>opt_min_units := Some ''blank_units.txt''\<rparr>)))"
proof -
  have h1: "opt_min_units (sample_cmdline\<lparr>opt_min_units := Some ''blank_units.txt''\<rparr>) =
      Some ''blank_units.txt''" and h2: "''blank_units.txt'' \<noteq> []" by simp_all
  have h3: "py_int ''blank_units.txt'' = None" by code_simp
  have h4: "sample_files ''blank_units.txt'' = Opened ([''1 12''] @ [] # [''2 6''])"
    by (simp add: sample_files_def)
  have h5: "list_all is_entry [''1 12'']" by code_simp
  have h6: "fields [] = []" by code_simp
  then have h7: "fields [] = [] \<or> (\<exists>f. fields [] = [f] \<and> py_int f \<noteq> None)" by simp
  show ?thesis
    using short_units_line_index_error[where gen = sample_generate_repeats and brs = sample_build_rep_set
          and files = sample_files, OF sample_units_accepted h1 h2 h3 h4 h5 h7]
      sample_units_accepted h3 h4 h5 h6
    by simp
qed

text \<open>
  Claim C10: when the same motif size appears on more than one line of the units file,
  the unit-cutoff table maps the size to the value of the last such line, and no error is
  raised for the duplicate. For a units file of entries, let \<open>l\<close> be a line that gives the
  size \<open>k\<close> the value \<open>v\<close>, with no later line for the size \<open>k\<close>: \<^verbatim>\<open>ssr_native\<close> is invoked
  exactly once, with a table that maps \<open>k\<close> to \<open>v\<close>, whatever the lines before \<open>l\<close> say.
\<close>

theorem units_file_last_entry_wins:
  fixes a :: "'g args" and gen :: "int \<Rightarrow> int \<Rightarrow> bool \<Rightarrow> 'g"
    and brs :: "'g repeats option \<Rightarrow> cutoff \<Rightarrow> 'i"
  assumes "getArgs cl = Inr a" and "opt_min_units cl = Some u" and "u \<noteq> []"
    and "py_int u = None"
    and "files u = Opened (pre @ l # post)"
    and "list_all is_entry pre" and "units_line l = Inr (k, v)" and "list_all is_entry post"
    and "list_all (\<lambda>l'. line_size l' \<noteq> Some k) post"
  shows "\<exists>a' t. filter is_ssr_native (fst (main gen brs files cl)) =
                  [Call_ssr_native a' None (Some t)]
              \<and> map_of t k = Some v"
proof -
  obtain g :: "('g, 'i) event list" and a1 where
    g: "filter is_ssr_native g = []"
    and f: "fst (main gen brs files cl) =
           g @ (case snd (file_units brs files a1 u) of
                  Inl e \<Rightarrow> fst (file_units brs files a1 u)
                | Inr a2 \<Rightarrow> fst (file_units brs files a1 u) @ fst (reports a2))"
    using main_units_file[OF assms(1-4), of gen brs files] by blast
  obtain t where t: "snd (read_units [] (pre @ l # post) :: ('g, 'i, unit_table) run) = Inr t"
    and m: "map_of t k = Some v"
    using read_units_last_wins[OF assms(6-9)] by blast
  have "filter is_ssr_native (fst (file_units brs files a1 u)) = [Call_ssr_native a1 None (Some t)]"
    by (simp add: file_units_events assms(5) t read_units_filters ssr_native_filters
        del: read_units.simps)
  then have "filter is_ssr_native (fst (main gen brs files cl)) = [Call_ssr_native a1 None (Some t)]"
    by (simp add: f g reports_filters split: sum.splits)
  then show ?thesis using m by blast
qed

theorem units_file_last_entry_wins_witness:
  "getArgs (sample_cmdline\<lparr>opt_min_units := Some ''units.txt''\<rparr>) =
       Inr (sample_args\<lparr>min_units := Units_str ''units.txt''\<rparr>)
   \<and> py_int ''units.txt'' = None
   \<and> sample_files ''units.txt'' = Opened ([''1 12'', ''2  6''] @ ''2 5'' # [''3 1''])
   \<and> list_all is_entry [''1 12'', ''2  6'']
   \<and> units_line ''2  6'' = Inr (2, 6)
   \<and> units_line ''2 5'' = Inr (2, 5)
   \<and> list_all is_entry [''3 1'']
   \<and> list_all (\<lambda>l'. line_size l' \<noteq> Some 2) [''3 1'']
   \<and> (\<exists>a' t. filter is_ssr_native
          (fst (main sample_generate_repeats sample_build_rep_set sample_files
             (sample_cmdline\<lparr>opt_min_units := Some ''units.txt''\<rparr>))) =
          [Call_ssr_native a' None (Some t)]
        \<and> map_of t 2 = Some 5)"
proof -
  have h1: "opt_min_units (sample_cmdline\<lparr>opt_min_units := Some ''units.txt''\<rparr>) =
      Some ''units.txt''" and h2: "''units.txt'' \<noteq> []" by simp_all
  have h3: "py_int ''units.txt'' = None" by code_simp
  have h4: "sample_files ''units.txt'' = Opened ([''1 12'', ''2  6''] @ ''2 5'' # [''3 1''])"
    by (simp add: sample_files_def)
  have h5: "list_all is_entry [''1 12'', ''2  6'']" by code_simp
  have h6: "units_line ''2 5'' = Inr (2, 5)" by code_simp
  have h7: "list_all is_entry [''3 1'']" by code_simp
  have h8: "list_all (\<lambda>l'. line_size l' \<noteq> Some 2) [''3 1'']" by code_simp
  have h9: "units_line ''2  6'' = Inr (2, 6)" by code_simp
  show ?thesis
    using units_file_last_entry_wins[where gen = sample_generate_repeats and brs = sample_build_rep_set
          and files = sample_files, OF sample_units_accepted h1 h2 h3 h4 h5 h6 h7 h8]
      sample_units_accepted h3 h4 h5 h6 h7 h8 h9
    by blast
qed

end
